theory Spec2Isabelle
  imports Complex_Main
begin

section \<open>Conventions of the embedding\<close>

text \<open>
  The notebooks compute with Python and numpy floats. The embedding is over the real
  numbers: every float is read as the real it stands for and every operation as the exact
  operation. Rounding, overflow and the IEEE special values are therefore outside the
  model. What the code does when an operation has no real result is written into the
  model as an error value:
  \<^item> a division of Python floats or ints by zero raises \<open>ZeroDivisionError\<close>;
  \<^item> a numpy operation outside its real domain (a division of numpy floats by zero,
    \<open>np.log\<close> of a number that is not positive, \<open>np.sqrt\<close> of a negative number) gives
    \<open>inf\<close> or \<open>nan\<close> with a warning, and Python's float power of a negative base to a
    fractional exponent gives a complex number; the code goes on with that value, the
    model returns \<open>OutsideReals\<close> and does not follow the computation further;
  \<^item> a read of a list out of range, of a missing dictionary key or of a missing
    attribute is \<open>IndexError\<close>, \<open>KeyError\<close>, \<open>AttributeError\<close>.
  The objects of the external library (dates, day counters, curves, schedules, legs) are
  not reimplemented: a date is a value of a type \<open>'d\<close>, and what a library call returns
  is a parameter of the model.
\<close>

datatype py_error =
    ZeroDivisionError | IndexError | KeyError | AttributeError | TypeError | ValueError
  | OutsideReals

definition bind_err :: "py_error + 'a \<Rightarrow> ('a \<Rightarrow> py_error + 'b) \<Rightarrow> py_error + 'b" where
  "bind_err x f = (case x of Inl e \<Rightarrow> Inl e | Inr v \<Rightarrow> f v)"

definition py_div :: "real \<Rightarrow> real \<Rightarrow> py_error + real" where
  "py_div x y = (if y = 0 then Inl ZeroDivisionError else Inr (x / y))"

definition np_div :: "real \<Rightarrow> real \<Rightarrow> py_error + real" where
  "np_div x y = (if y = 0 then Inl OutsideReals else Inr (x / y))"

definition np_log :: "real \<Rightarrow> py_error + real" where
  "np_log x = (if x \<le> 0 then Inl OutsideReals else Inr (ln x))"

definition np_sqrt :: "real \<Rightarrow> py_error + real" where
  "np_sqrt x = (if x < 0 then Inl OutsideReals else Inr (sqrt x))"

text \<open>Python's \<open>b ** t\<close> on floats: the real power for a positive base; for the base
  \<open>0.0\<close> the values \<open>0.0\<close> and \<open>1.0\<close> or, for a negative exponent, a
  \<open>ZeroDivisionError\<close>; for a negative base the integer power when \<open>t\<close> is a whole
  number and a complex number otherwise.\<close>

definition py_pow :: "real \<Rightarrow> real \<Rightarrow> py_error + real" where
  "py_pow b t =
     (if 0 < b then Inr (b powr t)
      else if b = 0 then
        (if 0 < t then Inr 0 else if t = 0 then Inr 1 else Inl ZeroDivisionError)
      else if t = of_int \<lfloor>t\<rfloor> then Inr (b powi \<lfloor>t\<rfloor>)
      else Inl OutsideReals)"

text \<open>Python's \<open>sum\<close> over a generator and a list comprehension, where an element may
  raise: the first element that raises ends the evaluation.\<close>

fun sum_err :: "(py_error + real) list \<Rightarrow> py_error + real" where
  "sum_err [] = Inr 0"
| "sum_err (x # xs) =
     (case x of
        Inl e \<Rightarrow> Inl e
      | Inr v \<Rightarrow> (case sum_err xs of Inl e \<Rightarrow> Inl e | Inr s \<Rightarrow> Inr (v + s)))"

fun collect_err :: "(py_error + 'a) list \<Rightarrow> py_error + 'a list" where
  "collect_err [] = Inr []"
| "collect_err (x # xs) =
     (case x of
        Inl e \<Rightarrow> Inl e
      | Inr v \<Rightarrow> (case collect_err xs of Inl e \<Rightarrow> Inl e | Inr vs \<Rightarrow> Inr (v # vs)))"

section \<open>CMS.ipynb: the hand-computed CMS rate\<close>

text \<open>
  The last code cell of the notebook reads the global variables of the notebook. They are
  the fields of the record: \<open>today\<close>, \<open>T0\<close>, \<open>Tp\<close>, \<open>TN\<close> (dates), \<open>sigma\<close>, \<open>shift\<close>,
  \<open>kappa\<close>, \<open>S = swp.fairRate()\<close>, the list \<open>swp.fixedSchedule()\<close>, the function
  \<open>yearfrac\<close> (\<open>ql.Thirty360(0).yearFraction\<close>) and \<open>discount_curve.discount\<close>.
\<close>

record 'd cms_inputs =
  cms_today :: 'd
  cms_T0 :: 'd
  cms_Tp :: 'd
  cms_TN :: 'd
  cms_sigma :: real
  cms_shift :: real
  cms_kappa :: real
  cms_S :: real
  cms_schedule :: "'d list"
  cms_yearfrac :: "'d \<Rightarrow> 'd \<Rightarrow> real"
  cms_discount :: "'d \<Rightarrow> real"

text \<open>\<^verbatim>\<open>G = lambda tau, kappa: (1-np.exp(-kappa*tau))/kappa if kappa>0 else tau\<close>:
  the division by \<open>kappa\<close> is taken only when \<open>kappa > 0\<close>.\<close>

definition G :: "real \<Rightarrow> real \<Rightarrow> real" where
  "G tau kappa = (if kappa > 0 then (1 - exp (- kappa * tau)) / kappa else tau)"

text \<open>\<^verbatim>\<open>[... for idx, date in enumerate(swp.fixedSchedule()) if idx > 0]\<close> visits the
  pairs \<open>(schedule[idx-1], date)\<close> for \<open>idx = 1, 2, ...\<close>.\<close>

definition periods :: "'d list \<Rightarrow> ('d \<times> 'd) list" where
  "periods schedule = zip schedule (tl schedule)"

definition annuity :: "'d cms_inputs \<Rightarrow> real" where
  "annuity m =
     (\<Sum>(prev, date) \<leftarrow> periods (cms_schedule m).
        cms_yearfrac m prev date * cms_discount m date)"

definition gamma_numerator :: "'d cms_inputs \<Rightarrow> real" where
  "gamma_numerator m =
     (\<Sum>(prev, date) \<leftarrow> periods (cms_schedule m).
        cms_yearfrac m prev date * cms_discount m date
          * G (cms_yearfrac m (cms_T0 m) date) (cms_kappa m))"

text \<open>With \<open>kappa > 0\<close> the value of \<open>G\<close> is a numpy float, and so are the sum in
  \<open>gamma\<close> (when the schedule has a period), \<open>gamma\<close> and both sides of the division
  in \<open>a\<close>: these divisions are numpy's. Otherwise all operands are Python floats (or the
  int \<open>0\<close> of an empty sum) and the divisions are Python's.\<close>

definition cms_div :: "'d cms_inputs \<Rightarrow> real \<Rightarrow> real \<Rightarrow> py_error + real" where
  "cms_div m =
     (if 0 < cms_kappa m \<and> periods (cms_schedule m) \<noteq> [] then np_div else py_div)"

definition gamma :: "'d cms_inputs \<Rightarrow> py_error + real" where
  "gamma m = cms_div m (gamma_numerator m) (annuity m)"

text \<open>The numerator and the denominator of the coefficient \<open>a\<close>, for a value \<open>g\<close> of
  \<open>gamma\<close>.\<close>

definition a_denominator :: "'d cms_inputs \<Rightarrow> real \<Rightarrow> real" where
  "a_denominator m g =
     cms_discount m (cms_TN m) * G (cms_yearfrac m (cms_T0 m) (cms_TN m)) (cms_kappa m)
       + annuity m * cms_S m * g"

definition a_coef :: "'d cms_inputs \<Rightarrow> real \<Rightarrow> py_error + real" where
  "a_coef m g =
     cms_div m (cms_discount m (cms_Tp m)
                  * (g - G (cms_yearfrac m (cms_T0 m) (cms_Tp m)) (cms_kappa m)))
               (a_denominator m g)"

text \<open>\<^verbatim>\<open>var = (S+shift)**2 * (np.exp(sigma**2 * yearfrac(today,T0)) - 1)\<close>, as a function of
  \<open>S\<close>, \<open>shift\<close>, \<open>sigma\<close> and the year fraction \<open>yearfrac(today, T0)\<close>.\<close>

definition var :: "real \<Rightarrow> real \<Rightarrow> real \<Rightarrow> real \<Rightarrow> real" where
  "var S shift sigma T0 = (S + shift)\<^sup>2 * (exp (sigma\<^sup>2 * T0) - 1)"

definition cms_var :: "'d cms_inputs \<Rightarrow> real" where
  "cms_var m =
     var (cms_S m) (cms_shift m) (cms_sigma m) (cms_yearfrac m (cms_today m) (cms_T0 m))"

text \<open>\<^verbatim>\<open>cms_rate = S + annuity/discount_curve.discount(Tp) * a * var\<close>, after \<open>gamma\<close> and
  \<open>a\<close> in the order of the cell.\<close>

definition cms_rate :: "'d cms_inputs \<Rightarrow> py_error + real" where
  "cms_rate m =
     (case gamma m of
        Inl e \<Rightarrow> Inl e
      | Inr g \<Rightarrow>
          (case a_coef m g of
             Inl e \<Rightarrow> Inl e
           | Inr a \<Rightarrow>
               (case py_div (annuity m) (cms_discount m (cms_Tp m)) of
                  Inl e \<Rightarrow> Inl e
                | Inr q \<Rightarrow> Inr (cms_S m + q * a * cms_var m))))"

text \<open>Concrete inputs, one for each forward swap rate \<open>s\<close>, with dates as times in
  years and \<open>yearfrac d1 d2 = d2 - d1\<close>: a swap of three annual periods starting at
  \<open>T0 = 2\<close>, a discount factor of one at every date, no mean reversion.\<close>

definition cms_example :: "real \<Rightarrow> real cms_inputs" where
  "cms_example s =
     \<lparr> cms_today = 0, cms_T0 = 2, cms_Tp = 3, cms_TN = 5,
       cms_sigma = 6 / 10, cms_shift = 2 / 100, cms_kappa = 0, cms_S = s,
       cms_schedule = [2, 3, 4, 5],
       cms_yearfrac = (\<lambda>d1 d2. d2 - d1),
       cms_discount = (\<lambda>d. 1) \<rparr>"

section \<open>Swaption.ipynb: the analytical swaption formula\<close>

text \<open>
  \<open>norm.pdf\<close> and \<open>norm.cdf\<close> of the statistics library are parameters of the model,
  \<open>pdf\<close> and \<open>cdf\<close>. What is known of them is the predicate \<open>std_normal\<close>: the density
  is \<open>exp (- x\<^sup>2 / 2) / sqrt (2 \<pi>)\<close>, the distribution function has the density as its
  derivative and tends to \<open>0\<close> at \<open>-\<infinity>\<close>. These three facts determine both functions.
\<close>

definition std_normal :: "(real \<Rightarrow> real) \<Rightarrow> (real \<Rightarrow> real) \<Rightarrow> bool" where
  "std_normal pdf cdf \<longleftrightarrow>
     (\<forall>x. pdf x = exp (- (x\<^sup>2) / 2) / sqrt (2 * pi))
     \<and> (\<forall>x. (cdf has_real_derivative pdf x) (at x))
     \<and> (cdf \<longlongrightarrow> 0) at_bot"

text \<open>
  A pair of functions with these properties, to evaluate the model on:
  \<open>gauss_primitive\<close> is the primitive of \<open>exp (- x\<^sup>2 / 2)\<close> that vanishes at \<open>0\<close>, as a
  power series, and \<open>norm_cdf\<close> subtracts its limit at \<open>-\<infinity>\<close> (its infimum, since it
  increases).
\<close>

definition gauss_coeff :: "nat \<Rightarrow> real" where
  "gauss_coeff n =
     (if even n then 0 else (- 1 / 2) ^ ((n - 1) div 2) / (fact ((n - 1) div 2) * real n))"

definition gauss_primitive :: "real \<Rightarrow> real" where
  "gauss_primitive x = (\<Sum>n. gauss_coeff n * x ^ n)"

definition norm_pdf :: "real \<Rightarrow> real" where
  "norm_pdf x = exp (- (x\<^sup>2) / 2) / sqrt (2 * pi)"

definition norm_cdf :: "real \<Rightarrow> real" where
  "norm_cdf x = (gauss_primitive x - Inf (range gauss_primitive)) / sqrt (2 * pi)"

text \<open>\<open>str.lower()\<close>, on the ASCII letters.\<close>

definition lower_char :: "char \<Rightarrow> char" where
  "lower_char c =
     (case map_of (zip ''ABCDEFGHIJKLMNOPQRSTUVWXYZ'' ''abcdefghijklmnopqrstuvwxyz'') c of
        None \<Rightarrow> c
      | Some l \<Rightarrow> l)"

definition lower :: "string \<Rightarrow> string" where
  "lower s = map lower_char s"

text \<open>
  \<open>swaption_formula(S, K, A, expiry, sigma, payer_receiver, model = 'lognormal',
  shift = 0.0)\<close>. The dictionary lookup of \<open>w\<close> raises \<open>KeyError\<close> on any other flag; a
  model that is neither \<open>'lognormal'\<close> nor \<open>'normal'\<close> falls through both tests and the
  function returns \<open>None\<close>. The division \<open>(S+shift)/(K+shift)\<close> is Python's, the
  operations on the results of \<open>np.log\<close> and \<open>np.sqrt\<close> are numpy's.
\<close>

definition swaption_formula ::
  "(real \<Rightarrow> real) \<Rightarrow> (real \<Rightarrow> real) \<Rightarrow> real \<Rightarrow> real \<Rightarrow> real \<Rightarrow> real \<Rightarrow> real
     \<Rightarrow> string \<Rightarrow> string \<Rightarrow> real \<Rightarrow> py_error + real option" where
  "swaption_formula pdf cdf S K A expiry sigma payer_receiver model shift =
     (case map_of [(''payer'', 1), (''receiver'', - 1)] (lower payer_receiver) of
        None \<Rightarrow> Inl KeyError
      | Some w \<Rightarrow>
          if lower model = ''lognormal'' then
            bind_err (py_div (S + shift) (K + shift)) (\<lambda>q.
            bind_err (np_log q) (\<lambda>lq.
            bind_err (np_sqrt expiry) (\<lambda>se.
            bind_err (np_div (lq + 0.5 * sigma\<^sup>2 * expiry) (sigma * se)) (\<lambda>d1.
              let d2 = d1 - sigma * se
              in Inr (Some ((w * (S + shift) * cdf (w * d1)
                               - w * (K + shift) * cdf (w * d2)) * A))))))
          else if lower model = ''normal'' then
            bind_err (np_sqrt expiry) (\<lambda>se.
            bind_err (np_div (S - K) (sigma * se)) (\<lambda>d.
              Inr (Some (A * sigma * se * (pdf d + w * d * cdf (w * d))))))
          else Inr None)"

text \<open>The two formulas for a payer swaption and an annuity of one, as functions of the
  volatility \<open>s\<close>: the normal one with \<open>m = S - K\<close>, and the lognormal one with the
  shifted rates \<open>F\<close> and \<open>K\<close>.\<close>

definition bachelier_call :: "(real \<Rightarrow> real) \<Rightarrow> (real \<Rightarrow> real) \<Rightarrow> real \<Rightarrow> real \<Rightarrow> real \<Rightarrow> real" where
  "bachelier_call pdf cdf m T s =
     s * sqrt T * (pdf (m / (s * sqrt T)) + m / (s * sqrt T) * cdf (m / (s * sqrt T)))"

definition black_d1 :: "real \<Rightarrow> real \<Rightarrow> real \<Rightarrow> real \<Rightarrow> real" where
  "black_d1 F K T s = (ln (F / K) + 0.5 * s\<^sup>2 * T) / (s * sqrt T)"

definition black_call :: "(real \<Rightarrow> real) \<Rightarrow> real \<Rightarrow> real \<Rightarrow> real \<Rightarrow> real \<Rightarrow> real" where
  "black_call cdf F K T s =
     F * cdf (black_d1 F K T s) - K * cdf (black_d1 F K T s - s * sqrt T)"

section \<open>CMS\_spread\_options.ipynb: drift and integration\<close>

text \<open>A vanilla swap of the library, as far as the notebook reads it:
  \<open>swap.fixedSchedule()\<close>, the \<open>yearFraction\<close> of \<open>swap.fixedDayCount()\<close> and
  \<open>swap.fairRate()\<close>.\<close>

record 'd vanilla_swap =
  fixedSchedule :: "'d list"
  fixedDayCount :: "'d \<Rightarrow> 'd \<Rightarrow> real"
  fairRate :: real

text \<open>
  \<^verbatim>\<open>psi = lambda y, curve, day_counter, schedule:
    sum(day_counter.yearFraction(schedule[i-1], di)
          / (1+y)**day_counter.yearFraction(schedule[0], di)
        for i, di in enumerate(schedule[1:], 1))\<close>
  The terms are those of the pairs \<open>(schedule[i-1], schedule[i])\<close>; \<open>schedule[0]\<close> is read
  only inside a term, so only when the schedule is not empty. The argument \<open>curve\<close> is
  not used.
\<close>

definition psi_term ::
  "real \<Rightarrow> ('d \<Rightarrow> 'd \<Rightarrow> real) \<Rightarrow> 'd list \<Rightarrow> 'd \<times> 'd \<Rightarrow> py_error + real" where
  "psi_term y day_counter schedule p =
     bind_err (py_pow (1 + y) (day_counter (hd schedule) (snd p)))
       (\<lambda>q. py_div (day_counter (fst p) (snd p)) q)"

definition psi ::
  "real \<Rightarrow> 'c \<Rightarrow> ('d \<Rightarrow> 'd \<Rightarrow> real) \<Rightarrow> 'd list \<Rightarrow> py_error + real" where
  "psi y curve day_counter schedule =
     sum_err (map (psi_term y day_counter schedule) (periods schedule))"

text \<open>The same sum over the reals, for \<open>1 + y > 0\<close>.\<close>

definition psi_real :: "real \<Rightarrow> ('d \<Rightarrow> 'd \<Rightarrow> real) \<Rightarrow> 'd list \<Rightarrow> real" where
  "psi_real y day_counter schedule =
     (\<Sum>(prev, di) \<leftarrow> periods schedule.
        day_counter prev di / (1 + y) powr day_counter (hd schedule) di)"

text \<open>
  \<open>get_drift(swap, curve, sigma, h = 0.0001)\<close>, with the global \<open>today\<close> as first
  argument. The body assigns \<open>h = 0.0001\<close> before it uses \<open>h\<close>. \<open>schedule[0]\<close> raises on
  an empty schedule; the divisions by \<open>psi_prime\<close>, by \<open>Talpha\<close> and by \<open>S0\<close> are
  Python's.
\<close>

definition get_drift ::
  "'d \<Rightarrow> 'd vanilla_swap \<Rightarrow> 'c \<Rightarrow> real \<Rightarrow> real \<Rightarrow> py_error + real" where
  "get_drift today swap curve sigma h =
     (let schedule = fixedSchedule swap;
          day_counter = fixedDayCount swap;
          S0 = fairRate swap;
          h = 1 / 10000
      in bind_err (psi (S0 + h) curve day_counter schedule) (\<lambda>psi_plus.
         bind_err (psi (S0 - h) curve day_counter schedule) (\<lambda>psi_minus.
         bind_err (psi S0 curve day_counter schedule) (\<lambda>psi_zero.
           let psi_prime = (psi_plus - psi_minus) / (2 * h);
               psi_second = (psi_plus - 2 * psi_zero + psi_minus) / h\<^sup>2
           in (case schedule of
                 [] \<Rightarrow> Inl IndexError
               | d0 # _ \<Rightarrow>
                   let Talpha = day_counter today d0
                   in bind_err (py_div (0.5 * S0\<^sup>2 * sigma\<^sup>2 * Talpha * psi_second) psi_prime)
                        (\<lambda>adj. let CMS_rate = S0 - adj
                          in bind_err (py_div 1 Talpha) (\<lambda>inv_T.
                             bind_err (py_div CMS_rate S0) (\<lambda>ratio.
                             bind_err (np_log ratio) (\<lambda>l. Inr (inv_T * l))))))))))"

text \<open>
  \<open>get_fv(swap1, swap2, curve, v, K, sigma1, sigma2, rho)\<close>, with the global \<open>today\<close>
  and \<open>norm.cdf\<close> of the statistics library as first arguments. \<open>h_lambda\<close> is the local
  \<^verbatim>\<open>h = lambda K, S, mu, sigma, T, v: K+S*np.exp((mu - 0.5*sigma**2)*T + sigma*np.sqrt(T)*v)\<close>.
  All operations after the two drifts are numpy's.
\<close>

definition h_lambda ::
  "real \<Rightarrow> real \<Rightarrow> real \<Rightarrow> real \<Rightarrow> real \<Rightarrow> real \<Rightarrow> py_error + real" where
  "h_lambda K S mu sigma T v =
     bind_err (np_sqrt T) (\<lambda>sT. Inr (K + S * exp ((mu - 0.5 * sigma\<^sup>2) * T + sigma * sT * v)))"

definition get_fv ::
  "'d \<Rightarrow> (real \<Rightarrow> real) \<Rightarrow> 'd vanilla_swap \<Rightarrow> 'd vanilla_swap \<Rightarrow> 'c
     \<Rightarrow> real \<Rightarrow> real \<Rightarrow> real \<Rightarrow> real \<Rightarrow> real \<Rightarrow> py_error + real" where
  "get_fv today cdf swap1 swap2 curve v K sigma1 sigma2 rho =
     (let day_counter = fixedDayCount swap1;
          S1 = fairRate swap1;
          S2 = fairRate swap2
      in (case fixedSchedule swap1 of
            [] \<Rightarrow> Inl IndexError
          | d0 # _ \<Rightarrow>
              let T = day_counter today d0
              in bind_err (get_drift today swap1 curve sigma1 (1 / 10000)) (\<lambda>mu1.
                 bind_err (get_drift today swap2 curve sigma2 (1 / 10000)) (\<lambda>mu2.
                 bind_err (h_lambda K S1 mu1 sigma1 T v) (\<lambda>hv.
                 bind_err (np_sqrt T) (\<lambda>sT.
                   let part1 = S2 * exp (mu2 * T - 0.5 * rho\<^sup>2 * sigma2\<^sup>2 * T
                                          + rho * sigma2 * sT * v)
                   in bind_err (np_div S2 hv) (\<lambda>q.
                      bind_err (np_log q) (\<lambda>lq.
                      bind_err (np_sqrt (1 - rho\<^sup>2)) (\<lambda>sr.
                      bind_err (np_div (lq + (mu2 + (0.5 - rho\<^sup>2) * sigma2\<^sup>2) * T
                                           + rho * sigma2 * sT * v)
                                       (sigma2 * sT * sr)) (\<lambda>x2.
                      bind_err (np_div (lq + (mu2 - 0.5 * sigma2\<^sup>2) * T
                                           + rho * sigma2 * sT * v)
                                       (sigma2 * sT * sr)) (\<lambda>x3.
                        let part2 = cdf x2;
                            part3 = hv * cdf x3
                        in Inr (part1 * part2 - part3))))))))))))"

text \<open>\<open>np.linspace(start, stop, num)\<close>: \<open>num\<close> points from \<open>start\<close> in steps of
  \<open>(stop - start) / (num - 1)\<close>; and \<open>v_grid = np.linspace(-8, 8, 400)\<close>.\<close>

definition linspace :: "real \<Rightarrow> real \<Rightarrow> nat \<Rightarrow> real list" where
  "linspace start stop num =
     map (\<lambda>i. start + real i * ((stop - start) / real (num - 1))) [0..<num]"

definition v_grid :: "real list" where
  "v_grid = linspace (- 8) 8 400"

text \<open>
  \<^verbatim>\<open>integrand = [1/np.sqrt(2*np.pi) * np.exp(-0.5*v**2)
     * get_fv(swap1, swap2, curve, v, K = 0.01, sigma1 = 0.2, sigma2 = 0.2, rho = -0.9)
     for v in v_grid]\<close>
\<close>

definition density :: "real \<Rightarrow> real" where
  "density v = 1 / sqrt (2 * pi) * exp (- 0.5 * v\<^sup>2)"

definition integrand ::
  "'d \<Rightarrow> (real \<Rightarrow> real) \<Rightarrow> 'd vanilla_swap \<Rightarrow> 'd vanilla_swap \<Rightarrow> 'c
     \<Rightarrow> py_error + real list" where
  "integrand today cdf swap1 swap2 curve =
     collect_err
       (map (\<lambda>v. bind_err
                    (get_fv today cdf swap1 swap2 curve v (1 / 100) (2 / 10) (2 / 10) (- 9 / 10))
                    (\<lambda>fv. Inr (density v * fv)))
            v_grid)"

text \<open>\<open>scipy.integrate.trapezoid(y, x)\<close> on two sequences of the same length: the sum of
  \<open>(x[i+1] - x[i]) * (y[i+1] + y[i]) / 2\<close>.\<close>

definition trapezoid :: "real list \<Rightarrow> real list \<Rightarrow> real" where
  "trapezoid y x =
     (\<Sum>((x0, x1), (y0, y1)) \<leftarrow> zip (zip x (tl x)) (zip y (tl y)).
        (x1 - x0) * (y1 + y0) / 2)"

text \<open>\<^verbatim>\<open>undiscounted_payoff = trapezoid(integrand, x=v_grid)\<close>\<close>

definition undiscounted_payoff ::
  "'d \<Rightarrow> (real \<Rightarrow> real) \<Rightarrow> 'd vanilla_swap \<Rightarrow> 'd vanilla_swap \<Rightarrow> 'c
     \<Rightarrow> py_error + real" where
  "undiscounted_payoff today cdf swap1 swap2 curve =
     bind_err (integrand today cdf swap1 swap2 curve) (\<lambda>ys. Inr (trapezoid ys v_grid))"

text \<open>A concrete swap, with dates as times in years from today and the year fraction
  \<open>d2 - d1\<close>: one annual period starting in one year, fair rate \<open>r\<close>.\<close>

definition swap_example :: "real \<Rightarrow> real vanilla_swap" where
  "swap_example r =
     \<lparr> fixedSchedule = [1, 2], fixedDayCount = (\<lambda>d1 d2. d2 - d1), fairRate = r \<rparr>"

section \<open>build\_fx\_quotes.ipynb: the class xccy\_swap\<close>

text \<open>
  The legs are objects of the library. The model keeps what the constructors are given:
  \<open>ql.OvernightLeg([1], schedule, index, ql.SimpleDayCounter(), ql.Following, [1],
  [spread], True)\<close> is \<open>OvernightLeg schedule index spread\<close>, with the index
  \<open>ql.Eonia(curve)\<close> or \<open>ql.Sofr(curve)\<close>, and \<open>ql.Leg([ql.SimpleCashFlow(amount, date)])\<close>
  is \<open>SimpleCashFlowLeg amount date\<close>. Curves are values of a type \<open>'c\<close>.
\<close>

datatype 'c overnight_index = Eonia 'c | Sofr 'c

datatype ('d, 'c) leg =
    OvernightLeg "'d list" "'c overnight_index" real
  | SimpleCashFlowLeg real 'd

text \<open>The calls into the library whose results the class uses: the schedule
  \<open>ql.MakeSchedule(pricing_date, ql.NullCalendar().advance(pricing_date,
  ql.Period(tenor_years, ql.Years)), ql.Period('1Y'))\<close> as a function of the pricing date
  and the tenor, and \<open>ql.CashFlows.npv(leg, discount_curve, True, pricing_date)\<close>.\<close>

record ('d, 'c) ql_lib =
  MakeSchedule :: "'d \<Rightarrow> int \<Rightarrow> 'd list"
  CashFlows_npv :: "('d, 'c) leg \<Rightarrow> 'c \<Rightarrow> 'd \<Rightarrow> real"

text \<open>
  The values the dictionary \<open>self.inputs\<close> holds, and the dictionary as an association
  list in insertion order. Dictionaries are mutable objects: they live in a heap (a list of
  dictionaries, the address being the position) and an object holds the address. An
  \<open>xccy_swap\<close> object is its attributes; an attribute that was never assigned is \<open>None\<close>
  here and raises \<open>AttributeError\<close> when read.
\<close>

datatype ('d, 'c) pyval = PyNone | PyFloat real | PyInt int | PyDate 'd | PyCurve 'c

type_synonym ('d, 'c) dict = "(string \<times> ('d, 'c) pyval) list"

type_synonym ('d, 'c) heap = "('d, 'c) dict list"

record ('d, 'c) xccy_swap =
  inputs :: nat
  pricing_date :: 'd
  schedule :: "'d list"
  eur_leg :: "('d, 'c) leg option"
  usd_leg :: "('d, 'c) leg option"
  eur_notional :: "('d, 'c) leg option"
  usd_notional :: "('d, 'c) leg option"

text \<open>\<open>d.pop(key)\<close>: removes the key, \<open>KeyError\<close> when it is absent.\<close>

definition dict_pop :: "string \<Rightarrow> ('d, 'c) dict \<Rightarrow> py_error + ('d, 'c) dict" where
  "dict_pop key d =
     (case map_of d key of
        None \<Rightarrow> Inl KeyError
      | Some _ \<Rightarrow> Inr (filter (\<lambda>kv. fst kv \<noteq> key) d))"

text \<open>Python's \<open>max\<close> of a sequence: \<open>ValueError\<close> on an empty one.\<close>

definition py_max :: "('d::linorder) list \<Rightarrow> py_error + 'd" where
  "py_max xs = (case xs of [] \<Rightarrow> Inl ValueError | x # rest \<Rightarrow> Inr (fold max rest x))"

text \<open>The test \<open>if spread_eur:\<close> on a float or \<open>None\<close>: false for \<open>None\<close> and for zero.\<close>

definition truthy :: "real option \<Rightarrow> bool" where
  "truthy spread_eur = (case spread_eur of None \<Rightarrow> False | Some x \<Rightarrow> x \<noteq> 0)"

text \<open>
  \<open>build_swap(self, pricing_date, spread_eur, eur_fcst_curve, usd_fcst_curve,
  tenor_years)\<close>: the two overnight legs over \<open>self.schedule\<close> (the EUR one with the
  spread, the USD one with spread \<open>0\<close>) and the two notional redemptions of \<open>1.0\<close> at
  \<open>max(self.schedule)\<close>.
\<close>

definition build_swap ::
  "('d::linorder, 'c) xccy_swap \<Rightarrow> 'd \<Rightarrow> real \<Rightarrow> 'c \<Rightarrow> 'c \<Rightarrow> int
     \<Rightarrow> py_error + ('d, 'c) xccy_swap" where
  "build_swap self pricing_date' spread_eur eur_fcst_curve usd_fcst_curve tenor_years =
     (let eur = OvernightLeg (schedule self) (Eonia eur_fcst_curve) spread_eur;
          usd = OvernightLeg (schedule self) (Sofr usd_fcst_curve) 0;
          self1 = self\<lparr>eur_leg := Some eur, usd_leg := Some usd\<rparr>
      in bind_err (py_max (schedule self1)) (\<lambda>m1.
           let self2 = self1\<lparr>eur_notional := Some (SimpleCashFlowLeg 1 m1)\<rparr>
           in bind_err (py_max (schedule self2)) (\<lambda>m2.
                Inr (self2\<lparr>usd_notional := Some (SimpleCashFlowLeg 1 m2)\<rparr>))))"

text \<open>
  \<open>__init__(self, pricing_date, eur_fcst_curve, usd_fcst_curve, tenor_years,
  spread_eur = None)\<close>: \<open>self.inputs = locals()\<close> without \<open>'self'\<close> is a new dictionary in
  the heap; the legs are built only when \<open>spread_eur\<close> is truthy. The result is the new
  object and the new heap.
\<close>

definition xccy_swap_init ::
  "('d::linorder, 'c) ql_lib \<Rightarrow> ('d, 'c) heap \<Rightarrow> 'd \<Rightarrow> 'c \<Rightarrow> 'c \<Rightarrow> int \<Rightarrow> real option
     \<Rightarrow> py_error + (('d, 'c) xccy_swap \<times> ('d, 'c) heap)" where
  "xccy_swap_init ql heap pricing_date' eur_fcst_curve usd_fcst_curve tenor_years spread_eur =
     (let d = [(''pricing_date'', PyDate pricing_date'),
               (''eur_fcst_curve'', PyCurve eur_fcst_curve),
               (''usd_fcst_curve'', PyCurve usd_fcst_curve),
               (''tenor_years'', PyInt tenor_years),
               (''spread_eur'', (case spread_eur of None \<Rightarrow> PyNone | Some x \<Rightarrow> PyFloat x))];
          self = \<lparr> inputs = length heap,
                   pricing_date = pricing_date',
                   schedule = MakeSchedule ql pricing_date' tenor_years,
                   eur_leg = None, usd_leg = None, eur_notional = None, usd_notional = None \<rparr>;
          heap' = heap @ [d]
      in if truthy spread_eur
         then bind_err
                (build_swap self pricing_date' (the spread_eur) eur_fcst_curve usd_fcst_curve
                   tenor_years)
                (\<lambda>self'. Inr (self', heap'))
         else Inr (self, heap'))"

text \<open>Reading an attribute that may not have been assigned.\<close>

definition getattr :: "'a option \<Rightarrow> py_error + 'a" where
  "getattr x = (case x of None \<Rightarrow> Inl AttributeError | Some v \<Rightarrow> Inr v)"

text \<open>\<open>npv(self, eur_discount_curve, usd_discount_curve)\<close>: the attributes are read in
  the order \<open>eur_leg\<close>, \<open>eur_notional\<close>, \<open>usd_leg\<close>, \<open>usd_notional\<close>.\<close>

definition npv ::
  "('d, 'c) ql_lib \<Rightarrow> ('d, 'c) xccy_swap \<Rightarrow> 'c \<Rightarrow> 'c \<Rightarrow> py_error + real" where
  "npv ql self eur_discount_curve usd_discount_curve =
     bind_err (getattr (eur_leg self)) (\<lambda>el.
     bind_err (getattr (eur_notional self)) (\<lambda>en.
       let eur_npv = CashFlows_npv ql el eur_discount_curve (pricing_date self)
                       + CashFlows_npv ql en eur_discount_curve (pricing_date self)
       in bind_err (getattr (usd_leg self)) (\<lambda>ul.
          bind_err (getattr (usd_notional self)) (\<lambda>un.
            let usd_npv = CashFlows_npv ql ul usd_discount_curve (pricing_date self)
                            + CashFlows_npv ql un usd_discount_curve (pricing_date self)
            in Inr (eur_npv - usd_npv)))))"

text \<open>
  The call \<open>xccy_swap(**inputs, spread_eur=spread)\<close>: the dictionary gives the other four
  arguments by keyword. A dictionary that still has the key \<open>'spread_eur'\<close>, or lacks an
  argument, makes the call a \<open>TypeError\<close>.
\<close>

definition kwargs :: "('d, 'c) dict \<Rightarrow> py_error + ('d \<times> 'c \<times> 'c \<times> int)" where
  "kwargs d =
     (case (map_of d ''pricing_date'', map_of d ''eur_fcst_curve'',
            map_of d ''usd_fcst_curve'', map_of d ''tenor_years'', map_of d ''spread_eur'') of
        (Some (PyDate pd), Some (PyCurve ec), Some (PyCurve uc), Some (PyInt ty), None) \<Rightarrow>
          Inr (pd, ec, uc, ty)
      | _ \<Rightarrow> Inl TypeError)"

text \<open>
  The function handed to the root finder,
  \<^verbatim>\<open>lambda spread: xccy_swap(**inputs, spread_eur=spread).npv(eur_discount_curve, usd_discount_curve)\<close>,
  where \<open>inputs\<close> is the dictionary at the address \<open>a\<close> of the heap. The object it builds
  and that object's dictionary are not reachable after the call, so the heap it leaves
  is not kept.
\<close>

definition objective ::
  "('d::linorder, 'c) ql_lib \<Rightarrow> ('d, 'c) heap \<Rightarrow> nat \<Rightarrow> 'c \<Rightarrow> 'c \<Rightarrow> real \<Rightarrow> py_error + real" where
  "objective ql heap a eur_discount_curve usd_discount_curve spread =
     bind_err (kwargs (heap ! a)) (\<lambda>(pd, ec, uc, ty).
     bind_err (xccy_swap_init ql heap pd ec uc ty (Some spread)) (\<lambda>(swap, _).
       npv ql swap eur_discount_curve usd_discount_curve))"

text \<open>
  \<open>fair_spread(self, eur_discount_curve, usd_discount_curve)\<close>. The local \<open>inputs\<close> is
  the dictionary \<open>self.inputs\<close> itself (the same address), so \<open>inputs.pop('spread_eur')\<close>
  changes the dictionary of the object, and the change stays when the call raises later.
  \<open>root_scalar f x0 x1\<close> stands for \<open>root_scalar(f, x0 = x0, x1 = x1).root\<close> of the
  optimisation library: the root it reports, or the exception that ends it. The result
  is the returned value or exception, and the heap after the call.
\<close>

definition fair_spread ::
  "('d::linorder, 'c) ql_lib \<Rightarrow> ((real \<Rightarrow> py_error + real) \<Rightarrow> real \<Rightarrow> real \<Rightarrow> py_error + real)
     \<Rightarrow> ('d, 'c) xccy_swap \<Rightarrow> ('d, 'c) heap \<Rightarrow> 'c \<Rightarrow> 'c
     \<Rightarrow> (py_error + real) \<times> ('d, 'c) heap" where
  "fair_spread ql root_scalar self heap eur_discount_curve usd_discount_curve =
     (let a = inputs self
      in (case dict_pop ''spread_eur'' (heap ! a) of
            Inl e \<Rightarrow> (Inl e, heap)
          | Inr d \<Rightarrow>
              let heap' = heap[a := d]
              in (root_scalar (objective ql heap' a eur_discount_curve usd_discount_curve)
                    (- 0.1) 0.1,
                  heap')))"

text \<open>
  A library and a root finder to evaluate the class on: dates are day numbers, a schedule
  is the pricing date and the \<open>tenor_years\<close> anniversaries at a distance of 365 days, and
  the present value of a leg is an affine function of its spread; the root finder is one
  secant step from \<open>x0\<close> and \<open>x1\<close>, which reports its iterate when the function is zero
  there.
\<close>

definition ql_example :: "(int, nat) ql_lib" where
  "ql_example =
     \<lparr> MakeSchedule = (\<lambda>pd ty. map (\<lambda>k. pd + 365 * int k) [0..<Suc (nat ty)]),
       CashFlows_npv = (\<lambda>l c pd.
          (case l of
             OvernightLeg sched idx spread \<Rightarrow> (real c / 100 + spread) * real (length sched - 1)
           | SimpleCashFlowLeg amount date \<Rightarrow> amount)) \<rparr>"

definition secant_step :: "(real \<Rightarrow> py_error + real) \<Rightarrow> real \<Rightarrow> real \<Rightarrow> py_error + real" where
  "secant_step f x0 x1 =
     bind_err (f x0) (\<lambda>q0.
     bind_err (f x1) (\<lambda>q1.
       if q1 = q0 then Inl ValueError
       else let x2 = x1 - q1 * (x1 - x0) / (q1 - q0)
            in bind_err (f x2) (\<lambda>q2. if q2 = 0 then Inr x2 else Inl ValueError)))"

text \<open>The dictionary that \<open>__init__\<close> stores for a new object.\<close>

definition inputs_dict :: "'d \<Rightarrow> 'c \<Rightarrow> 'c \<Rightarrow> int \<Rightarrow> real option \<Rightarrow> ('d, 'c) dict" where
  "inputs_dict pd ec uc ty spread_eur =
     [(''pricing_date'', PyDate pd), (''eur_fcst_curve'', PyCurve ec),
      (''usd_fcst_curve'', PyCurve uc), (''tenor_years'', PyInt ty),
      (''spread_eur'', (case spread_eur of None \<Rightarrow> PyNone | Some x \<Rightarrow> PyFloat x))]"

section \<open>Facts about the CMS cell\<close>

lemma py_div_Inr: "y \<noteq> 0 \<Longrightarrow> py_div x y = Inr (x / y)"
  by (simp add: py_div_def)

lemma G_nonneg: "0 \<le> tau \<Longrightarrow> 0 \<le> G tau kappa"
  by (simp add: G_def)

lemma G_pos: "0 < tau \<Longrightarrow> 0 < G tau kappa"
  by (simp add: G_def)

lemma sum_list_pos_real:
  fixes f :: "'a \<Rightarrow> real"
  assumes "xs \<noteq> []" and "\<And>x. x \<in> set xs \<Longrightarrow> 0 < f x"
  shows "0 < sum_list (map f xs)"
  using assms
proof (induction xs)
  case Nil
  then show ?case by simp
next
  case (Cons x xs)
  have fx: "0 < f x" using Cons.prems(2) by simp
  show ?case
  proof (cases "xs = []")
    case True
    then show ?thesis using fx by simp
  next
    case False
    then have "0 < sum_list (map f xs)"
      using Cons.IH Cons.prems(2) by simp
    then show ?thesis using fx by simp
  qed
qed

lemma sum_list_nonneg_real:
  fixes f :: "'a \<Rightarrow> real"
  assumes "\<And>x. x \<in> set xs \<Longrightarrow> 0 \<le> f x"
  shows "0 \<le> sum_list (map f xs)"
  using assms by (induction xs) (simp_all add: add_nonneg_nonneg)

lemma annuity_example: "annuity (cms_example s) = 3"
  by (simp add: annuity_def cms_example_def periods_def)

lemma gamma_example: "gamma (cms_example s) = Inr 2"
  by (simp add: gamma_def gamma_numerator_def annuity_def cms_example_def periods_def
      G_def py_div_def cms_div_def)

lemma a_denominator_example: "a_denominator (cms_example s) 2 = 3 + 6 * s"
  by (simp add: a_denominator_def annuity_example) (simp add: cms_example_def G_def)

lemma a_coef_example: "a_coef (cms_example s) 2 = py_div 1 (3 + 6 * s)"
  by (simp add: a_coef_def a_denominator_example) (simp add: cms_example_def G_def cms_div_def)

text \<open>The cell returns a value exactly when its three divisions are by non-zero
  numbers.\<close>

lemma cms_rate_Inr_iff:
  "(\<exists>r. cms_rate m = Inr r) \<longleftrightarrow>
     annuity m \<noteq> 0
     \<and> a_denominator m (gamma_numerator m / annuity m) \<noteq> 0
     \<and> cms_discount m (cms_Tp m) \<noteq> 0"
  by (auto simp add: cms_rate_def gamma_def a_coef_def cms_div_def py_div_def np_div_def
      split: sum.splits)

text \<open>
  Claim C1. Whenever \<open>gamma\<close> and the linear-TSR coefficient \<open>a\<close> are computed (values
  \<open>g\<close> and \<open>a\<close>) and the discount factor \<open>B(0,Tp)\<close> is not zero, the cell returns
  \<open>cms_rate = S + (annuity / B(0,Tp)) * a * Var\<close> with
  \<open>Var = (S + shift)\<^sup>2 * (exp (sigma\<^sup>2 * T0) - 1)\<close>, where \<open>T0\<close> is the year
  fraction from today to the observation date; so the convexity adjustment
  \<open>cms_rate - S\<close> is \<open>(annuity / B(0,Tp)) * a * (S + shift)\<^sup>2 * (exp (sigma\<^sup>2 * T0) - 1)\<close>.
\<close>

theorem cms_rate_closed_form:
  assumes "gamma m = Inr g" and "a_coef m g = Inr a" and "cms_discount m (cms_Tp m) \<noteq> 0"
  shows "\<exists>r. cms_rate m = Inr r
           \<and> r = cms_S m + annuity m / cms_discount m (cms_Tp m) * a
                    * ((cms_S m + cms_shift m)\<^sup>2
                        * (exp ((cms_sigma m)\<^sup>2 * cms_yearfrac m (cms_today m) (cms_T0 m)) - 1))
           \<and> r - cms_S m = annuity m / cms_discount m (cms_Tp m) * a
                    * (cms_S m + cms_shift m)\<^sup>2
                    * (exp ((cms_sigma m)\<^sup>2 * cms_yearfrac m (cms_today m) (cms_T0 m)) - 1)"
  using assms by (simp add: cms_rate_def py_div_def cms_var_def var_def)

theorem cms_rate_closed_form_witness:
  "gamma (cms_example (3 / 100)) = Inr 2
   \<and> a_coef (cms_example (3 / 100)) 2 = Inr (100 / 318)
   \<and> cms_discount (cms_example (3 / 100)) (cms_Tp (cms_example (3 / 100))) \<noteq> 0
   \<and> cms_rate (cms_example (3 / 100))
       = Inr (3 / 100 + 3 / 1 * (100 / 318)
                * ((3 / 100 + 2 / 100)\<^sup>2 * (exp ((6 / 10)\<^sup>2 * (2 - 0)) - 1)))"
proof -
  have g: "gamma (cms_example (3 / 100)) = Inr 2" by (rule gamma_example)
  have a: "a_coef (cms_example (3 / 100)) 2 = Inr (100 / 318)"
    by (simp add: a_coef_example py_div_def)
  have d: "cms_discount (cms_example (3 / 100)) (cms_Tp (cms_example (3 / 100))) \<noteq> 0"
    by (simp add: cms_example_def)
  from cms_rate_closed_form [OF g a d] g a d show ?thesis
    by (simp add: annuity_example) (simp add: cms_example_def)
qed

text \<open>
  Claim C6, as stated: positive volatility and positive time are enough for the cell to
  evaluate without raising. It is false: with a forward swap rate of \<open>-1/2\<close> on the
  three-period example (all operands Python floats, since \<open>kappa = 0\<close>) the denominator
  of \<open>a\<close> is \<open>1*3 + 3*(-1/2)*2 = 0\<close> and the division raises.
\<close>

theorem cms_rate_raises:
  "0 < cms_sigma (cms_example (- 1 / 2))
   \<and> 0 < cms_yearfrac (cms_example (- 1 / 2)) (cms_today (cms_example (- 1 / 2)))
           (cms_T0 (cms_example (- 1 / 2)))
   \<and> gamma (cms_example (- 1 / 2)) = Inr 2
   \<and> a_denominator (cms_example (- 1 / 2)) 2 = 0
   \<and> cms_rate (cms_example (- 1 / 2)) = Inl ZeroDivisionError"
  by (simp add: cms_rate_def gamma_example a_coef_example py_div_def a_denominator_example)
     (simp add: cms_example_def)

text \<open>
  Claim C6, amended. For an input with positive volatility and time whose schedule has at
  least one period, with positive accrual fractions and discount factors, no schedule
  date before \<open>T0\<close>, \<open>TN\<close> after \<open>T0\<close>, and a forward swap rate \<open>S \<ge> 0\<close>, every division of
  the cell is by a non-zero number (the annuity, the denominator of \<open>a\<close>, the discount
  factor at \<open>Tp\<close>; the division by \<open>kappa\<close> is guarded by \<open>kappa > 0\<close> in \<open>G\<close>) and the
  cell returns a value.
\<close>

theorem cms_rate_evaluates:
  assumes vol: "0 < cms_sigma m" and time: "0 < cms_yearfrac m (cms_today m) (cms_T0 m)"
    and nonempty: "periods (cms_schedule m) \<noteq> []"
    and sched: "\<forall>(prev, date) \<in> set (periods (cms_schedule m)).
                  0 < cms_yearfrac m prev date \<and> 0 < cms_discount m date
                  \<and> 0 \<le> cms_yearfrac m (cms_T0 m) date"
    and TN: "0 < cms_discount m (cms_TN m)" "0 < cms_yearfrac m (cms_T0 m) (cms_TN m)"
    and Tp: "0 < cms_discount m (cms_Tp m)"
    and S: "0 \<le> cms_S m"
  shows "annuity m \<noteq> 0
         \<and> (\<exists>g. gamma m = Inr g \<and> a_denominator m g \<noteq> 0)
         \<and> cms_discount m (cms_Tp m) \<noteq> 0
         \<and> (\<exists>r. cms_rate m = Inr r)"
proof -
  have A: "0 < annuity m"
    unfolding annuity_def using nonempty sched
    by (intro sum_list_pos_real) auto
  have N: "0 \<le> gamma_numerator m"
    unfolding gamma_numerator_def using sched
    by (intro sum_list_nonneg_real) (auto simp add: G_nonneg)
  define g where "g = gamma_numerator m / annuity m"
  have g: "gamma m = Inr g"
    using A by (simp add: gamma_def cms_div_def py_div_def np_div_def g_def)
  have g0: "0 \<le> g" using A N by (simp add: g_def)
  have "0 < cms_discount m (cms_TN m) * G (cms_yearfrac m (cms_T0 m) (cms_TN m)) (cms_kappa m)"
    using TN by (simp add: G_pos)
  moreover have "0 \<le> annuity m * cms_S m * g"
    using A S g0 by simp
  ultimately have D: "0 < a_denominator m g"
    by (simp add: a_denominator_def)
  have "\<exists>r. cms_rate m = Inr r"
    using g D Tp by (simp add: cms_rate_def a_coef_def cms_div_def py_div_def np_div_def)
  then show ?thesis using A g D Tp by auto
qed

theorem cms_rate_evaluates_witness:
  "0 < cms_sigma (cms_example (3 / 100))
   \<and> 0 < cms_yearfrac (cms_example (3 / 100)) (cms_today (cms_example (3 / 100)))
           (cms_T0 (cms_example (3 / 100)))
   \<and> periods (cms_schedule (cms_example (3 / 100))) = [(2, 3), (3, 4), (4, 5)]
   \<and> 0 \<le> cms_S (cms_example (3 / 100))
   \<and> annuity (cms_example (3 / 100)) \<noteq> 0
   \<and> (\<exists>g. gamma (cms_example (3 / 100)) = Inr g
          \<and> a_denominator (cms_example (3 / 100)) g \<noteq> 0)
   \<and> (\<exists>r. cms_rate (cms_example (3 / 100)) = Inr r)"
proof -
  let ?m = "cms_example (3 / 100)"
  have "annuity ?m \<noteq> 0
         \<and> (\<exists>g. gamma ?m = Inr g \<and> a_denominator ?m g \<noteq> 0)
         \<and> cms_discount ?m (cms_Tp ?m) \<noteq> 0
         \<and> (\<exists>r. cms_rate ?m = Inr r)"
    by (rule cms_rate_evaluates) (simp_all add: cms_example_def periods_def)
  then show ?thesis by (simp add: cms_example_def periods_def)
qed

lemma var_limit:
  assumes "((\<lambda>i. (\<sigma> i)\<^sup>2 * T i) \<longlongrightarrow> 0) F"
  shows "((\<lambda>i. var S shift (\<sigma> i) (T i)) \<longlongrightarrow> 0) F"
proof -
  have "((\<lambda>i. (S + shift)\<^sup>2 * (exp ((\<sigma> i)\<^sup>2 * T i) - 1))
          \<longlongrightarrow> (S + shift)\<^sup>2 * (exp 0 - 1)) F"
    by (intro tendsto_intros assms)
  then show ?thesis by (simp add: var_def)
qed

text \<open>
  Claim C8. Along any family of volatilities \<open>\<sigma> i\<close> and times \<open>T i\<close> (under any filter
  \<open>F\<close>) for which \<open>\<sigma>\<^sup>2 * T\<close> tends to \<open>0\<close>, the shifted-lognormal variance tends to \<open>0\<close>;
  and the expression is exactly \<open>0\<close> when \<open>sigma = 0\<close> or \<open>T0 = 0\<close>, for every \<open>S\<close> and
  \<open>shift\<close>.
\<close>

theorem var_vanishes:
  "(((\<lambda>i. (\<sigma> i)\<^sup>2 * T i) \<longlongrightarrow> 0) F
      \<longrightarrow> ((\<lambda>i. var S shift (\<sigma> i) (T i)) \<longlongrightarrow> 0) F)
   \<and> var S shift 0 T0 = 0 \<and> var S shift sigma 0 = 0"
  using var_limit [of \<sigma> T F S shift] by (simp add: var_def)

theorem var_vanishes_witness:
  "((\<lambda>n::nat. (6 / 10 :: real)\<^sup>2 * (1 / real (Suc n))) \<longlongrightarrow> 0) sequentially
   \<and> ((\<lambda>n::nat. var (3 / 100) (2 / 100) (6 / 10) (1 / real (Suc n))) \<longlongrightarrow> 0) sequentially
   \<and> var (3 / 100) (2 / 100) 0 2 = 0 \<and> var (3 / 100) (2 / 100) (6 / 10) 0 = 0"
proof -
  have "(\<lambda>n::nat. 1 / real (Suc n)) \<longlonglongrightarrow> 0"
    by (rule LIMSEQ_Suc) (simp add: lim_1_over_n)
  then have "(\<lambda>n::nat. (6 / 10 :: real)\<^sup>2 * (1 / real (Suc n))) \<longlonglongrightarrow> (6 / 10)\<^sup>2 * 0"
    by (intro tendsto_intros)
  then have h: "((\<lambda>n::nat. (6 / 10 :: real)\<^sup>2 * (1 / real (Suc n))) \<longlongrightarrow> 0) sequentially"
    by simp
  show ?thesis
    using h var_vanishes [of "\<lambda>n. 6 / 10" "\<lambda>n. 1 / real (Suc n)" sequentially
        "3 / 100" "2 / 100" 2 "6 / 10"]
    by simp
qed

section \<open>Facts about the drift and the integration\<close>

lemma bind_err_Inr [simp]: "bind_err (Inr v) f = f v"
  by (simp add: bind_err_def)

lemma bind_err_Inl [simp]: "bind_err (Inl e) f = Inl e"
  by (simp add: bind_err_def)

lemma sum_err_map_Inr:
  assumes "\<And>x. x \<in> set xs \<Longrightarrow> f x = Inr (g x)"
  shows "sum_err (map f xs) = Inr (sum_list (map g xs))"
  using assms by (induction xs) simp_all

lemma collect_err_map_Inr:
  assumes "\<And>x. x \<in> set xs \<Longrightarrow> f x = Inr (g x)"
  shows "collect_err (map f xs) = Inr (map g xs)"
  using assms by (induction xs) simp_all

lemma psi_term_pos:
  assumes "0 < 1 + y"
  shows "psi_term y day_counter sched p
           = Inr (day_counter (fst p) (snd p) / (1 + y) powr day_counter (hd sched) (snd p))"
  using assms by (simp add: psi_term_def py_pow_def py_div_def)

lemma psi_pos:
  assumes "0 < 1 + y"
  shows "psi y curve day_counter sched = Inr (psi_real y day_counter sched)"
proof -
  have "sum_err (map (psi_term y day_counter sched) (periods sched))
          = Inr (sum_list (map (\<lambda>p. day_counter (fst p) (snd p)
                                 / (1 + y) powr day_counter (hd sched) (snd p))
                            (periods sched)))"
    by (rule sum_err_map_Inr) (rule psi_term_pos [OF assms])
  then show ?thesis
    by (simp add: psi_def psi_real_def case_prod_unfold)
qed

text \<open>
  Claim C3. On a swap with a non-empty schedule and \<open>1 + S0 - h > 0\<close>, the three calls of
  \<open>psi\<close> return the analytic sum \<open>psi_real\<close> at \<open>S0 + h\<close>, \<open>S0 - h\<close> and \<open>S0\<close> with
  \<open>h = 0.0001\<close>; \<open>get_drift\<close> forms the centered differences
  \<open>psi_prime = (psi_plus - psi_minus) / (2 h)\<close> and
  \<open>psi_second = (psi_plus - 2 psi_zero + psi_minus) / h\<^sup>2\<close>, then
  \<open>CMS_rate = S0 - 0.5 S0\<^sup>2 sigma\<^sup>2 Talpha psi_second / psi_prime\<close>, and, when none of its
  divisions is by zero and the logarithm has a positive argument, returns
  \<open>1 / Talpha * log (CMS_rate / S0)\<close>.
\<close>

theorem get_drift_formula:
  assumes sched: "fixedSchedule swap = d0 # rest"
    and base: "0 < 1 + fairRate swap - 1 / 10000"
  shows "let S0 = fairRate swap;
             day_counter = fixedDayCount swap;
             sched = fixedSchedule swap;
             h = 1 / 10000;
             psi_plus = psi_real (S0 + h) day_counter sched;
             psi_minus = psi_real (S0 - h) day_counter sched;
             psi_zero = psi_real S0 day_counter sched;
             psi_prime = (psi_plus - psi_minus) / (2 * h);
             psi_second = (psi_plus - 2 * psi_zero + psi_minus) / h\<^sup>2;
             Talpha = day_counter today d0;
             CMS_rate = S0 - 0.5 * S0\<^sup>2 * sigma\<^sup>2 * Talpha * psi_second / psi_prime
         in psi (S0 + h) curve day_counter sched = Inr psi_plus
            \<and> psi (S0 - h) curve day_counter sched = Inr psi_minus
            \<and> psi S0 curve day_counter sched = Inr psi_zero
            \<and> (psi_prime \<noteq> 0 \<and> Talpha \<noteq> 0 \<and> S0 \<noteq> 0 \<and> 0 < CMS_rate / S0
                 \<longrightarrow> get_drift today swap curve sigma h0
                       = Inr (1 / Talpha * ln (CMS_rate / S0)))"
proof -
  have p: "0 < 1 + (fairRate swap + 1 / 10000)" using base by simp
  have m: "0 < 1 + (fairRate swap - 1 / 10000)" using base by simp
  have z: "0 < 1 + fairRate swap" using base by simp
  show ?thesis
    unfolding Let_def get_drift_def
    by (simp add: psi_pos [OF p] psi_pos [OF m] psi_pos [OF z] sched py_div_def np_log_def)
qed

text \<open>
  Claim C9. The result of \<open>get_drift\<close> does not depend on its argument \<open>h\<close>: for any two
  step sizes the results (values and errors alike) are equal, since the body assigns
  \<open>h = 0.0001\<close> before the finite differences.
\<close>

theorem get_drift_ignores_h:
  "get_drift today swap curve sigma h1 = get_drift today swap curve sigma h2"
  by (simp add: get_drift_def)

lemma psi_real_example: "psi_real y (\<lambda>d1 d2. d2 - d1) [1, 2] = 1 / \<bar>1 + y\<bar>"
  by (simp add: psi_real_def periods_def)

theorem get_drift_formula_witness:
  "fixedSchedule (swap_example (3 / 100)) = [1, 2]
   \<and> 0 < 1 + fairRate (swap_example (3 / 100)) - 1 / 10000
   \<and> psi (3 / 100) () (fixedDayCount (swap_example (3 / 100))) [1, 2] = Inr (100 / 103)
   \<and> get_drift 0 (swap_example (3 / 100)) () (2 / 10) (1 / 2)
       = Inr (1 / 1 * ln ((3 / 100 - 0.5 * (3 / 100)\<^sup>2 * (2 / 10)\<^sup>2 * 1
                * ((10000 / 10301 - 2 * (100 / 103) + 10000 / 10299) / (1 / 10000)\<^sup>2)
                / ((10000 / 10301 - 10000 / 10299) / (2 * (1 / 10000)))) / (3 / 100)))"
proof -
  have s: "fixedSchedule (swap_example (3 / 100)) = [1, 2]"
    by (simp add: swap_example_def)
  have b: "0 < 1 + fairRate (swap_example (3 / 100)) - 1 / 10000"
    by (simp add: swap_example_def)
  show ?thesis
    using get_drift_formula [OF s b, where curve = "()" and today = 0 and sigma = "2 / 10"
        and ?h0.0 = "1 / 2"] s b
    by (simp add: Let_def) (simp add: swap_example_def psi_real_example power2_eq_square)
qed

lemma collect_err_length:
  "collect_err xs = Inr ys \<Longrightarrow> length ys = length xs"
  by (induction xs arbitrary: ys) (auto split: sum.splits)

lemma collect_err_nth:
  "collect_err xs = Inr ys \<Longrightarrow> i < length xs \<Longrightarrow> xs ! i = Inr (ys ! i)"
proof (induction xs arbitrary: ys i)
  case Nil
  then show ?case by simp
next
  case (Cons x xs)
  then show ?case
    by (cases i) (auto split: sum.splits)
qed

lemma collect_err_defined:
  assumes "\<And>x. x \<in> set xs \<Longrightarrow> \<exists>y. f x = Inr y"
  shows "\<exists>ys. collect_err (map f xs) = Inr ys"
  using assms
proof (induction xs)
  case Nil
  then show ?case by simp
next
  case (Cons x xs)
  obtain y where y: "f x = Inr y" using Cons.prems by auto
  obtain ys where ys: "collect_err (map f xs) = Inr ys"
    using Cons.IH Cons.prems by auto
  show ?case by (simp add: y ys)
qed

lemma length_linspace: "length (linspace start stop num) = num"
  by (simp add: linspace_def)

lemma nth_linspace:
  "i < num \<Longrightarrow> linspace start stop num ! i = start + real i * ((stop - start) / real (num - 1))"
  by (simp add: linspace_def)

lemma length_v_grid: "length v_grid = 400"
  by (simp add: v_grid_def length_linspace)

lemma nth_v_grid: "i < 400 \<Longrightarrow> v_grid ! i = - 8 + real i * (16 / 399)"
  by (simp add: v_grid_def nth_linspace)

lemma v_grid_step: "i < 399 \<Longrightarrow> v_grid ! Suc i - v_grid ! i = 16 / 399"
  by (simp add: nth_v_grid algebra_simps)

lemma hd_v_grid: "hd v_grid = - 8"
proof -
  have "v_grid \<noteq> []" using length_v_grid by auto
  then have "hd v_grid = v_grid ! 0" by (simp add: hd_conv_nth)
  then show ?thesis by (simp add: nth_v_grid)
qed

lemma last_v_grid: "last v_grid = 8"
proof -
  have "v_grid \<noteq> []" using length_v_grid by auto
  then have "last v_grid = v_grid ! 399" by (simp add: last_conv_nth length_v_grid)
  then show ?thesis by (simp add: nth_v_grid)
qed

lemma trapezoid_sum:
  assumes "length y = length x"
  shows "trapezoid y x
           = (\<Sum>i<length x - 1. (x ! Suc i - x ! i) * (y ! Suc i + y ! i) / 2)"
proof -
  let ?zs = "zip (zip x (tl x)) (zip y (tl y))"
  let ?f = "\<lambda>((x0, x1), (y0, y1)). (x1 - x0) * (y1 + y0) / (2::real)"
  have len: "length ?zs = length x - 1" using assms by simp
  have "trapezoid y x = (\<Sum>i<length ?zs. map ?f ?zs ! i)"
    unfolding trapezoid_def by (simp add: sum_list_sum_nth atLeast0LessThan)
  also have "\<dots> = (\<Sum>i<length x - 1. (x ! Suc i - x ! i) * (y ! Suc i + y ! i) / 2)"
    unfolding len
  proof (rule sum.cong)
    fix i assume "i \<in> {..<length x - 1}"
    then have i: "i < length x - 1" by simp
    then have "?zs ! i = ((x ! i, x ! Suc i), (y ! i, y ! Suc i))"
      using assms by (simp add: nth_tl)
    then show "map ?f ?zs ! i = (x ! Suc i - x ! i) * (y ! Suc i + y ! i) / 2"
      using i len by simp
  qed simp
  finally show ?thesis .
qed

lemma trapezoid_v_grid:
  assumes "length ys = 400"
  shows "trapezoid ys v_grid = (\<Sum>i<399. 16 / 399 * (ys ! Suc i + ys ! i) / 2)"
proof -
  have "trapezoid ys v_grid
          = (\<Sum>i<399. (v_grid ! Suc i - v_grid ! i) * (ys ! Suc i + ys ! i) / 2)"
    using trapezoid_sum [of ys v_grid] assms by (simp add: length_v_grid)
  also have "\<dots> = (\<Sum>i<399. 16 / 399 * (ys ! Suc i + ys ! i) / 2)"
    by (rule sum.cong) (simp_all add: v_grid_step)
  finally show ?thesis .
qed

lemma integrand_length:
  "integrand today cdf swap1 swap2 curve = Inr ys \<Longrightarrow> length ys = 400"
  unfolding integrand_def by (drule collect_err_length) (simp add: length_v_grid)

lemma integrand_nth:
  assumes "integrand today cdf swap1 swap2 curve = Inr ys" and "i < 400"
  shows "\<exists>fv. get_fv today cdf swap1 swap2 curve (v_grid ! i) (1 / 100) (2 / 10) (2 / 10) (- 9 / 10)
                = Inr fv
              \<and> ys ! i = density (v_grid ! i) * fv"
proof -
  let ?g = "\<lambda>v. bind_err
                    (get_fv today cdf swap1 swap2 curve v (1 / 100) (2 / 10) (2 / 10) (- 9 / 10))
                    (\<lambda>fv. Inr (density v * fv))"
  have "map ?g v_grid ! i = Inr (ys ! i)"
    using assms collect_err_nth [of "map ?g v_grid" ys i]
    by (simp add: integrand_def length_v_grid)
  then have "?g (v_grid ! i) = Inr (ys ! i)"
    using assms(2) by (simp add: length_v_grid)
  then show ?thesis
    by (cases "get_fv today cdf swap1 swap2 curve (v_grid ! i) (1 / 100) (2 / 10) (2 / 10) (- 9 / 10)")
       auto
qed

text \<open>
  Claim C4. The grid \<open>v_grid\<close> is fixed: exactly 400 points from \<open>-8\<close> to \<open>8\<close> with the
  constant step \<open>16/399\<close>. Whenever the list of integrand values is computed, its entry
  \<open>i\<close> is the Gaussian density at \<open>v_grid ! i\<close> times the value of \<open>get_fv\<close> there, and
  \<open>undiscounted_payoff\<close> returns the trapezoid sum of these values over the grid, with
  no further condition: nothing in the computation tests convergence. The only errors
  are those of the integrand itself, passed on unchanged.
\<close>

theorem undiscounted_payoff_trapezoid:
  "length v_grid = 400 \<and> hd v_grid = - 8 \<and> last v_grid = 8
   \<and> (\<forall>i<399. v_grid ! Suc i - v_grid ! i = 16 / 399)
   \<and> (\<forall>ys. integrand today cdf swap1 swap2 curve = Inr ys \<longrightarrow>
         length ys = 400
         \<and> (\<forall>i<400. \<exists>fv.
               get_fv today cdf swap1 swap2 curve (v_grid ! i) (1 / 100) (2 / 10) (2 / 10) (- 9 / 10)
                 = Inr fv
               \<and> ys ! i = 1 / sqrt (2 * pi) * exp (- 0.5 * (v_grid ! i)\<^sup>2) * fv)
         \<and> undiscounted_payoff today cdf swap1 swap2 curve
             = Inr (\<Sum>i<399. 16 / 399 * (ys ! Suc i + ys ! i) / 2))
   \<and> (\<forall>e. integrand today cdf swap1 swap2 curve = Inl e \<longrightarrow>
         undiscounted_payoff today cdf swap1 swap2 curve = Inl e)"
proof -
  have "\<forall>ys. integrand today cdf swap1 swap2 curve = Inr ys \<longrightarrow>
         length ys = 400
         \<and> (\<forall>i<400. \<exists>fv.
               get_fv today cdf swap1 swap2 curve (v_grid ! i) (1 / 100) (2 / 10) (2 / 10) (- 9 / 10)
                 = Inr fv
               \<and> ys ! i = 1 / sqrt (2 * pi) * exp (- 0.5 * (v_grid ! i)\<^sup>2) * fv)
         \<and> undiscounted_payoff today cdf swap1 swap2 curve
             = Inr (\<Sum>i<399. 16 / 399 * (ys ! Suc i + ys ! i) / 2)"
  proof (intro allI impI)
    fix ys assume ys: "integrand today cdf swap1 swap2 curve = Inr ys"
    have len: "length ys = 400" using ys by (rule integrand_length)
    have pts: "\<forall>i<400. \<exists>fv.
               get_fv today cdf swap1 swap2 curve (v_grid ! i) (1 / 100) (2 / 10) (2 / 10) (- 9 / 10)
                 = Inr fv
               \<and> ys ! i = 1 / sqrt (2 * pi) * exp (- 0.5 * (v_grid ! i)\<^sup>2) * fv"
      using integrand_nth [OF ys] by (simp add: density_def)
    have val: "undiscounted_payoff today cdf swap1 swap2 curve
             = Inr (\<Sum>i<399. 16 / 399 * (ys ! Suc i + ys ! i) / 2)"
      by (simp add: undiscounted_payoff_def ys trapezoid_v_grid [OF len])
    from len pts val
    show "length ys = 400
         \<and> (\<forall>i<400. \<exists>fv.
               get_fv today cdf swap1 swap2 curve (v_grid ! i) (1 / 100) (2 / 10) (2 / 10) (- 9 / 10)
                 = Inr fv
               \<and> ys ! i = 1 / sqrt (2 * pi) * exp (- 0.5 * (v_grid ! i)\<^sup>2) * fv)
         \<and> undiscounted_payoff today cdf swap1 swap2 curve
             = Inr (\<Sum>i<399. 16 / 399 * (ys ! Suc i + ys ! i) / 2)"
      by (intro conjI)
  qed
  moreover have "\<forall>e. integrand today cdf swap1 swap2 curve = Inl e \<longrightarrow>
         undiscounted_payoff today cdf swap1 swap2 curve = Inl e"
    by (simp add: undiscounted_payoff_def)
  ultimately show ?thesis
    using length_v_grid hd_v_grid last_v_grid v_grid_step by blast
qed

lemma get_fv_defined:
  assumes sched: "fixedSchedule swap1 = d0 # rest"
    and mu1: "get_drift today swap1 curve sigma1 (1 / 10000) = Inr mu1"
    and mu2: "get_drift today swap2 curve sigma2 (1 / 10000) = Inr mu2"
    and T: "0 < fixedDayCount swap1 today d0"
    and K: "0 \<le> K" and S1: "0 < fairRate swap1" and S2: "0 < fairRate swap2"
    and sigma2: "sigma2 \<noteq> 0" and rho: "rho\<^sup>2 < 1"
  shows "\<exists>fv. get_fv today cdf swap1 swap2 curve v K sigma1 sigma2 rho = Inr fv"
proof -
  define T where "T = fixedDayCount swap1 today d0"
  define hv where
    "hv = K + fairRate swap1 * exp ((mu1 - 0.5 * sigma1\<^sup>2) * T + sigma1 * sqrt T * v)"
  have Tpos: "0 < T" using assms(4) by (simp add: T_def)
  have "0 < fairRate swap1 * exp ((mu1 - 0.5 * sigma1\<^sup>2) * T + sigma1 * sqrt T * v)"
    using S1 by simp
  then have hv: "0 < hv" using K by (simp add: hv_def)
  have h: "h_lambda K (fairRate swap1) mu1 sigma1 T v = Inr hv"
    using Tpos by (simp add: h_lambda_def np_sqrt_def hv_def)
  have q: "0 < fairRate swap2 / hv" using S2 hv by simp
  have sr: "0 < sqrt (1 - rho\<^sup>2)" using rho by simp
  have den: "sigma2 * sqrt T * sqrt (1 - rho\<^sup>2) \<noteq> 0"
    using sigma2 Tpos sr by simp
  show ?thesis
    using Tpos hv q rho den
    by (simp add: get_fv_def Let_def sched mu1 mu2 T_def [symmetric] h np_sqrt_def np_div_def
        np_log_def)
qed

lemma get_drift_swap_example_3:
  "\<exists>mu. get_drift 0 (swap_example (3 / 100)) () (2 / 10) h = Inr mu"
proof -
  have "psi y () (\<lambda>d1 d2. d2 - d1) [1, 2 :: real] = Inr (1 / (1 + y))" if "0 < 1 + y" for y
    using psi_pos [OF that, of "()" "\<lambda>d1 d2. d2 - d1" "[1, 2 :: real]"] that
    by (simp add: psi_real_example)
  then show ?thesis
    by (simp add: get_drift_def swap_example_def Let_def py_div_def np_log_def power2_eq_square)
qed

lemma get_drift_swap_example_4:
  "\<exists>mu. get_drift 0 (swap_example (4 / 100)) () (2 / 10) h = Inr mu"
proof -
  have "psi y () (\<lambda>d1 d2. d2 - d1) [1, 2 :: real] = Inr (1 / (1 + y))" if "0 < 1 + y" for y
    using psi_pos [OF that, of "()" "\<lambda>d1 d2. d2 - d1" "[1, 2 :: real]"] that
    by (simp add: psi_real_example)
  then show ?thesis
    by (simp add: get_drift_def swap_example_def Let_def py_div_def np_log_def power2_eq_square)
qed

lemma integrand_swap_example:
  "\<exists>ys. integrand 0 cdf (swap_example (3 / 100)) (swap_example (4 / 100)) () = Inr ys"
proof -
  obtain mu1 where mu1: "get_drift 0 (swap_example (3 / 100)) () (2 / 10) (1 / 10000) = Inr mu1"
    using get_drift_swap_example_3 by blast
  obtain mu2 where mu2: "get_drift 0 (swap_example (4 / 100)) () (2 / 10) (1 / 10000) = Inr mu2"
    using get_drift_swap_example_4 by blast
  have fv: "\<exists>fv. get_fv 0 cdf (swap_example (3 / 100)) (swap_example (4 / 100)) () v
                (1 / 100) (2 / 10) (2 / 10) (- 9 / 10) = Inr fv" for v
  proof (rule get_fv_defined [OF _ mu1 mu2])
    show "fixedSchedule (swap_example (3 / 100)) = 1 # [2]"
      by (simp add: swap_example_def)
    show "0 < fixedDayCount (swap_example (3 / 100)) 0 1"
      by (simp add: swap_example_def)
  qed (simp_all add: swap_example_def power2_eq_square)
  show ?thesis
    unfolding integrand_def
  proof (rule collect_err_defined)
    fix v
    obtain x where "get_fv 0 cdf (swap_example (3 / 100)) (swap_example (4 / 100)) () v
                (1 / 100) (2 / 10) (2 / 10) (- 9 / 10) = Inr x"
      using fv by blast
    then show "\<exists>y. bind_err (get_fv 0 cdf (swap_example (3 / 100)) (swap_example (4 / 100)) () v
                (1 / 100) (2 / 10) (2 / 10) (- 9 / 10)) (\<lambda>fv. Inr (density v * fv)) = Inr y"
      by simp
  qed
qed

theorem undiscounted_payoff_trapezoid_witness:
  "v_grid ! Suc 0 - v_grid ! 0 = 16 / 399
   \<and> (\<exists>ys. integrand 0 norm_cdf (swap_example (3 / 100)) (swap_example (4 / 100)) () = Inr ys
          \<and> length ys = 400
          \<and> undiscounted_payoff 0 norm_cdf (swap_example (3 / 100)) (swap_example (4 / 100)) ()
              = Inr (\<Sum>i<399. 16 / 399 * (ys ! Suc i + ys ! i) / 2))"
proof -
  obtain ys where
    ys: "integrand 0 norm_cdf (swap_example (3 / 100)) (swap_example (4 / 100)) () = Inr ys"
    using integrand_swap_example by blast
  show ?thesis
    using ys undiscounted_payoff_trapezoid
      [of 0 norm_cdf "swap_example (3 / 100)" "swap_example (4 / 100)" "()"]
    by auto
qed

section \<open>Facts about the class xccy\_swap\<close>

lemma py_max_Max:
  assumes "xs \<noteq> []"
  shows "py_max xs = Inr (Max (set xs))"
proof (cases xs)
  case Nil
  then show ?thesis using assms by simp
next
  case (Cons a list)
  have "fold max list a = Max (set (a # list))" by (rule Max.set_eq_fold [symmetric])
  then show ?thesis using Cons by (simp add: py_max_def)
qed

lemma build_swap_value:
  assumes "schedule self \<noteq> []"
  shows "build_swap self pd x ec uc ty
           = Inr (self\<lparr> eur_leg := Some (OvernightLeg (schedule self) (Eonia ec) x),
                        usd_leg := Some (OvernightLeg (schedule self) (Sofr uc) 0),
                        eur_notional := Some (SimpleCashFlowLeg 1 (Max (set (schedule self)))),
                        usd_notional := Some (SimpleCashFlowLeg 1 (Max (set (schedule self)))) \<rparr>)"
  using assms by (simp add: build_swap_def Let_def py_max_Max)

lemma xccy_swap_init_falsy:
  assumes "\<not> truthy spread_eur"
  shows "xccy_swap_init ql heap pd ec uc ty spread_eur
           = Inr (\<lparr> inputs = length heap, pricing_date = pd,
                     schedule = MakeSchedule ql pd ty,
                     eur_leg = None, usd_leg = None, eur_notional = None, usd_notional = None \<rparr>,
                  heap @ [[(''pricing_date'', PyDate pd), (''eur_fcst_curve'', PyCurve ec),
                           (''usd_fcst_curve'', PyCurve uc), (''tenor_years'', PyInt ty),
                           (''spread_eur'',
                              (case spread_eur of None \<Rightarrow> PyNone | Some x \<Rightarrow> PyFloat x))]])"
  using assms by (simp add: xccy_swap_init_def Let_def)

lemma xccy_swap_init_truthy:
  assumes "x \<noteq> 0" and "MakeSchedule ql pd ty \<noteq> []"
  shows "xccy_swap_init ql heap pd ec uc ty (Some x)
           = Inr (\<lparr> inputs = length heap, pricing_date = pd,
                     schedule = MakeSchedule ql pd ty,
                     eur_leg = Some (OvernightLeg (MakeSchedule ql pd ty) (Eonia ec) x),
                     usd_leg = Some (OvernightLeg (MakeSchedule ql pd ty) (Sofr uc) 0),
                     eur_notional = Some (SimpleCashFlowLeg 1 (Max (set (MakeSchedule ql pd ty)))),
                     usd_notional = Some (SimpleCashFlowLeg 1 (Max (set (MakeSchedule ql pd ty)))) \<rparr>,
                  heap @ [[(''pricing_date'', PyDate pd), (''eur_fcst_curve'', PyCurve ec),
                           (''usd_fcst_curve'', PyCurve uc), (''tenor_years'', PyInt ty),
                           (''spread_eur'', PyFloat x)]])"
  using assms by (simp add: xccy_swap_init_def Let_def truthy_def build_swap_value)

lemma xccy_swap_init_legs:
  assumes "xccy_swap_init ql heap pd ec uc ty spread_eur = Inr (self, heap')"
  shows "if truthy spread_eur
         then eur_leg self \<noteq> None \<and> usd_leg self \<noteq> None
              \<and> eur_notional self \<noteq> None \<and> usd_notional self \<noteq> None
         else eur_leg self = None \<and> usd_leg self = None
              \<and> eur_notional self = None \<and> usd_notional self = None"
proof (cases "truthy spread_eur")
  case False
  then show ?thesis using assms by (auto simp add: xccy_swap_init_falsy)
next
  case True
  then obtain x where x: "spread_eur = Some x" "x \<noteq> 0"
    by (auto simp add: truthy_def split: option.splits)
  show ?thesis
  proof (cases "MakeSchedule ql pd ty = []")
    case True
    then show ?thesis
      using assms x by (simp add: xccy_swap_init_def Let_def truthy_def build_swap_def py_max_def)
  next
    case False
    then show ?thesis
      using assms x by (auto simp add: xccy_swap_init_truthy truthy_def)
  qed
qed

lemma npv_value:
  assumes "eur_leg self = Some el" "eur_notional self = Some en"
    and "usd_leg self = Some ul" "usd_notional self = Some un"
  shows "npv ql self ed ud
           = Inr ((CashFlows_npv ql el ed (pricing_date self)
                     + CashFlows_npv ql en ed (pricing_date self))
                  - (CashFlows_npv ql ul ud (pricing_date self)
                     + CashFlows_npv ql un ud (pricing_date self)))"
  using assms by (simp add: npv_def getattr_def bind_err_def Let_def)

lemma npv_no_legs: "eur_leg self = None \<Longrightarrow> npv ql self ed ud = Inl AttributeError"
  by (simp add: npv_def getattr_def bind_err_def)

text \<open>
  Claim C10. Constructing \<open>xccy_swap\<close> with \<open>spread_eur\<close> equal to \<open>None\<close> (the default) or
  to \<open>0.0\<close> succeeds and builds no leg, because \<open>if spread_eur:\<close> tests truthiness; on
  such an object \<open>npv\<close> raises \<open>AttributeError\<close>. On any constructed object, \<open>npv\<close>
  returns a value if and only if the object was constructed with a spread that is neither
  \<open>None\<close> nor zero.
\<close>

theorem npv_needs_truthy_spread:
  "(spread_eur = None \<or> spread_eur = Some 0 \<longrightarrow>
      (\<exists>self heap'. xccy_swap_init ql heap pd ec uc ty spread_eur = Inr (self, heap')
          \<and> eur_leg self = None \<and> usd_leg self = None
          \<and> eur_notional self = None \<and> usd_notional self = None
          \<and> npv ql self ed ud = Inl AttributeError))
   \<and> (\<forall>self heap'. xccy_swap_init ql heap pd ec uc ty spread_eur = Inr (self, heap') \<longrightarrow>
          ((\<exists>v. npv ql self ed ud = Inr v) \<longleftrightarrow> spread_eur \<noteq> None \<and> spread_eur \<noteq> Some 0))"
proof (intro conjI allI impI)
  assume "spread_eur = None \<or> spread_eur = Some 0"
  then have "\<not> truthy spread_eur" by (auto simp add: truthy_def)
  then show "\<exists>self heap'. xccy_swap_init ql heap pd ec uc ty spread_eur = Inr (self, heap')
          \<and> eur_leg self = None \<and> usd_leg self = None
          \<and> eur_notional self = None \<and> usd_notional self = None
          \<and> npv ql self ed ud = Inl AttributeError"
    by (simp add: xccy_swap_init_falsy npv_no_legs)
next
  fix self heap'
  assume init: "xccy_swap_init ql heap pd ec uc ty spread_eur = Inr (self, heap')"
  have t: "truthy spread_eur \<longleftrightarrow> spread_eur \<noteq> None \<and> spread_eur \<noteq> Some 0"
    by (auto simp add: truthy_def split: option.splits)
  show "(\<exists>v. npv ql self ed ud = Inr v) \<longleftrightarrow> spread_eur \<noteq> None \<and> spread_eur \<noteq> Some 0"
  proof (cases "truthy spread_eur")
    case True
    then obtain el en ul un where
      "eur_leg self = Some el" "eur_notional self = Some en"
      "usd_leg self = Some ul" "usd_notional self = Some un"
      using xccy_swap_init_legs [OF init] by auto
    then have "\<exists>v. npv ql self ed ud = Inr v" by (simp add: npv_value)
    then show ?thesis using True t by simp
  next
    case False
    then have "eur_leg self = None" using xccy_swap_init_legs [OF init] by simp
    then have "npv ql self ed ud = Inl AttributeError" by (rule npv_no_legs)
    then show ?thesis using False t by simp
  qed
qed

lemma MakeSchedule_example: "MakeSchedule ql_example 0 2 = [0, 365, 730]"
  by (simp add: ql_example_def upt_rec)

theorem npv_needs_truthy_spread_witness:
  "(\<exists>self heap'. xccy_swap_init ql_example [] 0 3 2 2 (Some 0) = Inr (self, heap')
        \<and> eur_leg self = None \<and> npv ql_example self 3 2 = Inl AttributeError)
   \<and> (\<exists>self heap'. xccy_swap_init ql_example [] 0 3 2 2 None = Inr (self, heap')
        \<and> eur_leg self = None \<and> npv ql_example self 3 2 = Inl AttributeError)
   \<and> (\<exists>self heap' v. xccy_swap_init ql_example [] 0 3 2 2 (Some (1 / 100)) = Inr (self, heap')
        \<and> npv ql_example self 3 2 = Inr v)"
proof -
  have a: "\<exists>self heap'. xccy_swap_init ql_example [] 0 3 2 2 (Some 0) = Inr (self, heap')
        \<and> eur_leg self = None \<and> npv ql_example self 3 2 = Inl AttributeError"
    using npv_needs_truthy_spread [of "Some 0" ql_example "[]" 0 3 2 2 3 2] by auto
  have b: "\<exists>self heap'. xccy_swap_init ql_example [] 0 3 2 2 None = Inr (self, heap')
        \<and> eur_leg self = None \<and> npv ql_example self 3 2 = Inl AttributeError"
    using npv_needs_truthy_spread [of None ql_example "[]" 0 3 2 2 3 2] by auto
  obtain self heap' where
    i: "xccy_swap_init ql_example [] 0 3 2 2 (Some (1 / 100)) = Inr (self, heap')"
    by (simp add: xccy_swap_init_truthy MakeSchedule_example)
  have "\<exists>v. npv ql_example self 3 2 = Inr v"
    using i npv_needs_truthy_spread [of "Some (1 / 100)" ql_example "[]" 0 3 2 2 3 2] by auto
  then have c: "\<exists>self heap' v. xccy_swap_init ql_example [] 0 3 2 2 (Some (1 / 100))
        = Inr (self, heap') \<and> npv ql_example self 3 2 = Inr v"
    using i by blast
  from a b c show ?thesis by blast
qed

lemma xccy_swap_init_heap:
  assumes "xccy_swap_init ql heap pd ec uc ty spread_eur = Inr (self, heap1)"
  shows "inputs self = length heap \<and> heap1 = heap @ [inputs_dict pd ec uc ty spread_eur]
         \<and> pricing_date self = pd \<and> schedule self = MakeSchedule ql pd ty"
proof (cases "truthy spread_eur")
  case False
  then show ?thesis
    using assms by (auto simp add: xccy_swap_init_falsy inputs_dict_def)
next
  case True
  then obtain x where x: "spread_eur = Some x" "x \<noteq> 0"
    by (auto simp add: truthy_def split: option.splits)
  show ?thesis
  proof (cases "MakeSchedule ql pd ty = []")
    case True
    then show ?thesis
      using assms x by (simp add: xccy_swap_init_def Let_def truthy_def build_swap_def py_max_def)
  next
    case False
    then show ?thesis
      using assms x by (auto simp add: xccy_swap_init_truthy inputs_dict_def)
  qed
qed

lemma dict_pop_inputs:
  "dict_pop ''spread_eur'' (inputs_dict pd ec uc ty spread_eur)
     = Inr [(''pricing_date'', PyDate pd), (''eur_fcst_curve'', PyCurve ec),
            (''usd_fcst_curve'', PyCurve uc), (''tenor_years'', PyInt ty)]"
  by (simp add: dict_pop_def inputs_dict_def)

lemma kwargs_popped:
  "kwargs [(''pricing_date'', PyDate pd), (''eur_fcst_curve'', PyCurve ec),
           (''usd_fcst_curve'', PyCurve uc), (''tenor_years'', PyInt ty)]
     = Inr (pd, ec, uc, ty)"
  by (simp add: kwargs_def)

lemma fair_spread_first_call:
  assumes "xccy_swap_init ql heap pd ec uc ty spread_eur = Inr (self, heap1)"
  defines "heap2 \<equiv> heap @ [[(''pricing_date'', PyDate pd), (''eur_fcst_curve'', PyCurve ec),
                              (''usd_fcst_curve'', PyCurve uc), (''tenor_years'', PyInt ty)]]"
  shows "fair_spread ql root_scalar self heap1 ed ud
           = (root_scalar
                (\<lambda>spread. bind_err (xccy_swap_init ql heap2 pd ec uc ty (Some spread))
                             (\<lambda>(swap, _). npv ql swap ed ud))
                (- 0.1) 0.1,
              heap2)"
proof -
  have h: "inputs self = length heap" "heap1 = heap @ [inputs_dict pd ec uc ty spread_eur]"
    using xccy_swap_init_heap [OF assms(1)] by simp_all
  have o: "objective ql heap2 (length heap) ed ud
             = (\<lambda>spread. bind_err (xccy_swap_init ql heap2 pd ec uc ty (Some spread))
                             (\<lambda>(swap, _). npv ql swap ed ud))"
    by (rule ext) (simp add: objective_def heap2_def kwargs_popped)
  show ?thesis
    by (simp add: fair_spread_def Let_def h dict_pop_inputs o [unfolded heap2_def] heap2_def)
qed

lemma fair_spread_no_key:
  assumes "map_of (heap ! inputs self) ''spread_eur'' = None"
  shows "fair_spread ql root_scalar self heap ed ud = (Inl KeyError, heap)"
  using assms by (simp add: fair_spread_def dict_pop_def Let_def)

text \<open>
  Claim C7 says that no pricing operation changes what an instrument stores. The code
  does not keep to it: on a new \<open>xccy_swap\<close> object (constructed as in the notebook,
  without a spread) \<open>fair_spread\<close> removes the key \<open>'spread_eur'\<close> from the dictionary
  \<open>self.inputs\<close> of the object, whatever the root finder does, and a second call of
  \<open>fair_spread\<close> on the same object raises \<open>KeyError\<close>.
\<close>

theorem fair_spread_pops_spread_eur:
  "\<exists>self heap1 res heap2.
     xccy_swap_init ql [] pd ec uc ty None = Inr (self, heap1)
     \<and> map_of (heap1 ! inputs self) ''spread_eur'' = Some PyNone
     \<and> fair_spread ql root_scalar self heap1 ed ud = (res, heap2)
     \<and> map_of (heap2 ! inputs self) ''spread_eur'' = None
     \<and> heap2 \<noteq> heap1
     \<and> fair_spread ql root_scalar self heap2 ed ud = (Inl KeyError, heap2)"
proof -
  obtain self heap1 where
    i: "xccy_swap_init ql [] pd ec uc ty None = Inr (self, heap1)"
    by (simp add: xccy_swap_init_falsy truthy_def)
  have h: "inputs self = 0" "heap1 = [inputs_dict pd ec uc ty None]"
    using xccy_swap_init_heap [OF i] by simp_all
  define heap2 :: "('a, 'b) heap" where
    "heap2 = [[(''pricing_date'', PyDate pd), (''eur_fcst_curve'', PyCurve ec),
               (''usd_fcst_curve'', PyCurve uc), (''tenor_years'', PyInt ty)]]"
  obtain res where f: "fair_spread ql root_scalar self heap1 ed ud = (res, heap2)"
    using fair_spread_first_call [OF i, of root_scalar ed ud] by (simp add: heap2_def)
  have s: "fair_spread ql root_scalar self heap2 ed ud = (Inl KeyError, heap2)"
    by (rule fair_spread_no_key) (simp add: h heap2_def)
  have "map_of (heap1 ! inputs self) ''spread_eur'' = Some PyNone"
    by (simp add: h inputs_dict_def)
  moreover have "map_of (heap2 ! inputs self) ''spread_eur'' = None"
    by (simp add: h heap2_def)
  moreover have "heap2 \<noteq> heap1"
    by (simp add: h heap2_def inputs_dict_def)
  ultimately show ?thesis using i f s by blast
qed

text \<open>
  What \<open>fair_spread\<close> does on a new object, for every library, root finder, pricing date
  and tenor with a schedule that is not empty: every swap it prices, one per non-zero trial
  spread \<open>x\<close>, has the EUR overnight leg with spread \<open>x\<close> and its notional redemption, and
  the USD overnight leg with spread \<open>0\<close> and its notional redemption, and its \<open>npv\<close> is
  the EUR side minus the USD side; and the result of \<open>fair_spread\<close> is the result of one
  call of the root finder, on the function that maps a spread to this \<open>npv\<close>, started at
  \<open>-0.1\<close> and \<open>0.1\<close>. Nothing is checked about the value the root finder reports.
\<close>

lemma fair_spread_calls_root_scalar:
  assumes init: "xccy_swap_init ql heap pd ec uc ty spread_eur = Inr (self, heap1)"
    and sched: "MakeSchedule ql pd ty \<noteq> []"
  shows "\<exists>res heap2.
           fair_spread ql root_scalar self heap1 ed ud = (res, heap2)
           \<and> (\<forall>x. x \<noteq> 0 \<longrightarrow>
                 (\<exists>swap h. xccy_swap_init ql heap2 pd ec uc ty (Some x) = Inr (swap, h)
                    \<and> eur_leg swap = Some (OvernightLeg (MakeSchedule ql pd ty) (Eonia ec) x)
                    \<and> eur_notional swap
                        = Some (SimpleCashFlowLeg 1 (Max (set (MakeSchedule ql pd ty))))
                    \<and> usd_leg swap = Some (OvernightLeg (MakeSchedule ql pd ty) (Sofr uc) 0)
                    \<and> usd_notional swap
                        = Some (SimpleCashFlowLeg 1 (Max (set (MakeSchedule ql pd ty))))
                    \<and> npv ql swap ed ud
                        = Inr ((CashFlows_npv ql (the (eur_leg swap)) ed pd
                                  + CashFlows_npv ql (the (eur_notional swap)) ed pd)
                               - (CashFlows_npv ql (the (usd_leg swap)) ud pd
                                  + CashFlows_npv ql (the (usd_notional swap)) ud pd))))
           \<and> res = root_scalar
                      (\<lambda>spread. bind_err (xccy_swap_init ql heap2 pd ec uc ty (Some spread))
                                   (\<lambda>(swap, _). npv ql swap ed ud))
                      (- 0.1) 0.1"
proof -
  define heap2 where
    "heap2 = heap @ [[(''pricing_date'', PyDate pd), (''eur_fcst_curve'', PyCurve ec),
                      (''usd_fcst_curve'', PyCurve uc), (''tenor_years'', PyInt ty)]]"
  have call: "fair_spread ql root_scalar self heap1 ed ud
                = (root_scalar
                     (\<lambda>spread. bind_err (xccy_swap_init ql heap2 pd ec uc ty (Some spread))
                                  (\<lambda>(swap, _). npv ql swap ed ud))
                     (- 0.1) 0.1,
                   heap2)"
    using fair_spread_first_call [OF init, of root_scalar ed ud] by (simp add: heap2_def)
  have legs: "\<exists>swap h. xccy_swap_init ql heap2 pd ec uc ty (Some x) = Inr (swap, h)
                    \<and> eur_leg swap = Some (OvernightLeg (MakeSchedule ql pd ty) (Eonia ec) x)
                    \<and> eur_notional swap
                        = Some (SimpleCashFlowLeg 1 (Max (set (MakeSchedule ql pd ty))))
                    \<and> usd_leg swap = Some (OvernightLeg (MakeSchedule ql pd ty) (Sofr uc) 0)
                    \<and> usd_notional swap
                        = Some (SimpleCashFlowLeg 1 (Max (set (MakeSchedule ql pd ty))))
                    \<and> npv ql swap ed ud
                        = Inr ((CashFlows_npv ql (the (eur_leg swap)) ed pd
                                  + CashFlows_npv ql (the (eur_notional swap)) ed pd)
                               - (CashFlows_npv ql (the (usd_leg swap)) ud pd
                                  + CashFlows_npv ql (the (usd_notional swap)) ud pd))"
    if "x \<noteq> 0" for x
    using that sched by (simp add: xccy_swap_init_truthy npv_value)
  show ?thesis
    using call legs by blast
qed

text \<open>At the trial spread \<open>0.0\<close> the function handed to the root finder raises, for
  every library: the swap it constructs has no legs.\<close>

lemma objective_zero_spread:
  "bind_err (xccy_swap_init ql heap pd ec uc ty (Some 0)) (\<lambda>(swap, _). npv ql swap ed ud)
     = Inl AttributeError"
  by (simp add: xccy_swap_init_falsy truthy_def npv_no_legs)

lemma CashFlows_npv_ql_example:
  "CashFlows_npv ql_example (OvernightLeg [0, 365, 730] idx x) c pd = (real c / 100 + x) * 2"
  "CashFlows_npv ql_example (SimpleCashFlowLeg amount date) c pd = amount"
  by (simp_all add: ql_example_def)

lemma objective_ql_example:
  "bind_err (xccy_swap_init ql_example heap 0 ec uc 2 (Some x))
            (\<lambda>(swap, _). npv ql_example swap ed ud)
     = (if x = 0 then Inl AttributeError
        else Inr (2 * (real ed / 100 + x) - 2 * (real ud / 100)))"
proof (cases "x = 0")
  case True
  then show ?thesis by (simp add: objective_zero_spread)
next
  case False
  then show ?thesis
    by (simp add: xccy_swap_init_truthy MakeSchedule_example npv_value CashFlows_npv_ql_example)
qed

text \<open>With different discount curves the example finds the fair spread.\<close>

lemma fair_spread_ql_example:
  "\<exists>self heap1 heap2.
     xccy_swap_init ql_example [] 0 3 2 2 None = Inr (self, heap1)
     \<and> fair_spread ql_example secant_step self heap1 3 2 = (Inr (- 1 / 100), heap2)"
proof -
  obtain self heap1 where
    i: "xccy_swap_init ql_example [] 0 3 2 2 None = Inr (self, heap1)"
    by (simp add: xccy_swap_init_falsy truthy_def)
  have "fst (fair_spread ql_example secant_step self heap1 3 2) = Inr (- 1 / 100)"
    unfolding fair_spread_first_call [OF i] objective_ql_example
    by (simp add: secant_step_def Let_def)
  then show ?thesis using i by (metis prod.collapse)
qed

text \<open>
  Claim C5 says that for every tenor \<open>fair_spread\<close> returns a EUR spread at which \<open>npv\<close>
  is zero. The code does not keep to it when that spread is zero. With the same curve on
  both sides (here curve \<open>3\<close> for both forecasts and both discountings, tenor \<open>2\<close>) the
  function handed to the root finder is \<open>-0.2\<close> at \<open>-0.1\<close> and \<open>0.2\<close> at \<open>0.1\<close>, the secant
  iterate is exactly \<open>0.0\<close>, the swap constructed for it has no legs because
  \<open>if spread_eur:\<close> is false for \<open>0.0\<close>, and \<open>fair_spread\<close> raises \<open>AttributeError\<close>
  instead of returning \<open>0.0\<close>.
\<close>

theorem fair_spread_zero_spread_raises:
  "\<exists>self heap1 heap2.
     xccy_swap_init ql_example [] 0 3 3 2 None = Inr (self, heap1)
     \<and> objective ql_example heap2 (inputs self) 3 3 (- 0.1) = Inr (- 2 / 10)
     \<and> objective ql_example heap2 (inputs self) 3 3 0.1 = Inr (2 / 10)
     \<and> 0.1 - 2 / 10 * (0.1 - - 0.1) / (2 / 10 - - 2 / 10) = (0 :: real)
     \<and> objective ql_example heap2 (inputs self) 3 3 0 = Inl AttributeError
     \<and> fair_spread ql_example secant_step self heap1 3 3 = (Inl AttributeError, heap2)"
proof -
  obtain self heap1 where
    i: "xccy_swap_init ql_example [] 0 3 3 2 None = Inr (self, heap1)"
    by (simp add: xccy_swap_init_falsy truthy_def)
  define heap2 :: "(int, nat) heap" where
    "heap2 = [[(''pricing_date'', PyDate 0), (''eur_fcst_curve'', PyCurve 3),
               (''usd_fcst_curve'', PyCurve 3), (''tenor_years'', PyInt 2)]]"
  have a: "inputs self = 0" using xccy_swap_init_heap [OF i] by simp
  have o: "objective ql_example heap2 (inputs self) 3 3 x
             = (if x = 0 then Inl AttributeError else Inr (2 * x))" for x
    by (simp add: objective_def a heap2_def kwargs_def)
       (simp add: objective_ql_example objective_zero_spread)
  have f: "fair_spread ql_example secant_step self heap1 3 3 = (Inl AttributeError, heap2)"
    unfolding fair_spread_first_call [OF i] objective_ql_example
    by (simp add: secant_step_def Let_def heap2_def)
  show ?thesis
    using i f o [of "- 0.1"] o [of "0.1"] o [of 0] by (intro exI [of _ self] exI [of _ heap1] exI [of _ heap2]) simp
qed

section \<open>Facts about the normal distribution\<close>

lemma gauss_odd_terms_summable:
  fixes y :: real
  shows "summable (\<lambda>k. (- 1 / 2) ^ k * y ^ (2 * k + 1) / (fact k * real (2 * k + 1)))"
proof (rule summable_comparison_test' [where N = 0])
  show "summable (\<lambda>k. \<bar>y\<bar> * (inverse (fact k) * (y\<^sup>2 / 2) ^ k))"
    by (intro summable_mult summable_exp)
next
  fix k :: nat
  have "norm ((- 1 / 2) ^ k * y ^ (2 * k + 1) / (fact k * real (2 * k + 1)))
          = (1 / 2) ^ k * \<bar>y\<bar> ^ (2 * k + 1) / (fact k * real (2 * k + 1))"
    by (simp add: abs_mult power_abs power_divide)
  also have "\<dots> \<le> (1 / 2) ^ k * \<bar>y\<bar> ^ (2 * k + 1) / (fact k * 1)"
    by (intro divide_left_mono mult_left_mono) simp_all
  also have "\<dots> = \<bar>y\<bar> * (inverse (fact k) * (y\<^sup>2 / 2) ^ k)"
  proof -
    have "\<bar>y\<bar> ^ (2 * k + 1) = \<bar>y\<bar> * (y\<^sup>2) ^ k"
      by (simp add: power_mult)
    then show ?thesis
      by (simp add: power_divide divide_simps)
  qed
  finally show "norm ((- 1 / 2) ^ k * y ^ (2 * k + 1) / (fact k * real (2 * k + 1)))
                  \<le> \<bar>y\<bar> * (inverse (fact k) * (y\<^sup>2 / 2) ^ k)" .
qed

lemma gauss_coeff_summable: "summable (\<lambda>n. gauss_coeff n * y ^ n)"
proof -
  let ?g = "\<lambda>k. (- 1 / 2) ^ k * y ^ (2 * k + 1) / (fact k * real (2 * k + 1))"
  have "(\<lambda>n. if even n then 0 else ?g ((n - 1) div 2)) sums suminf ?g"
    by (rule sums_if' [OF summable_sums [OF gauss_odd_terms_summable]])
  moreover have "(if even n then 0 else ?g ((n - 1) div 2)) = gauss_coeff n * y ^ n" for n
  proof (cases "even n")
    case True
    then show ?thesis by (simp add: gauss_coeff_def)
  next
    case False
    then have "2 * ((n - 1) div 2) + 1 = n"
      by presburger
    then show ?thesis using False by (simp add: gauss_coeff_def)
  qed
  ultimately have "(\<lambda>n. gauss_coeff n * y ^ n) sums suminf ?g" by simp
  then show ?thesis by (rule sums_summable)
qed

lemma diffs_gauss_coeff:
  "diffs gauss_coeff n * x ^ n
     = (if even n then (- (x\<^sup>2) / 2) ^ (n div 2) /\<^sub>R fact (n div 2) else 0)"
proof (cases "even n")
  case False
  then show ?thesis by (simp add: diffs_def gauss_coeff_def)
next
  case True
  then obtain k where k: "n = 2 * k" by (auto elim: evenE)
  have "diffs gauss_coeff n = (- 1 / 2) ^ k / fact k"
    by (simp add: diffs_def gauss_coeff_def k del: of_nat_Suc) 
  moreover have "x ^ n = (x\<^sup>2) ^ k" by (simp add: k power_mult)
  ultimately have "diffs gauss_coeff n * x ^ n = (- 1 / 2) ^ k / fact k * (x\<^sup>2) ^ k" by simp
  also have "\<dots> = (- (x\<^sup>2) / 2) ^ k /\<^sub>R fact k"
  proof -
    have "- (x\<^sup>2) / 2 = (- 1 / 2) * x\<^sup>2" by simp
    then have e: "(- (x\<^sup>2) / 2) ^ k = (- 1 / 2) ^ k * (x\<^sup>2) ^ k"
      by (simp only: power_mult_distrib)
    show ?thesis unfolding e by (simp add: field_simps)
  qed
  finally show ?thesis using True k by simp
qed

lemma diffs_gauss_sums: "(\<lambda>n. diffs gauss_coeff n * x ^ n) sums exp (- (x\<^sup>2) / 2)"
proof -
  let ?f = "\<lambda>k. (- (x\<^sup>2) / 2) ^ k /\<^sub>R fact k"
  have "(\<lambda>n. if even n then ?f (n div 2) else (\<lambda>_. 0 :: real) ((n - 1) div 2))
          sums (0 + exp (- (x\<^sup>2) / 2))"
    by (rule sums_if [OF sums_zero exp_converges])
  then show ?thesis by (simp add: diffs_gauss_coeff)
qed

lemma DERIV_gauss_primitive:
  "(gauss_primitive has_real_derivative exp (- (x\<^sup>2) / 2)) (at x)"
proof -
  have "((\<lambda>x. \<Sum>n. gauss_coeff n * x ^ n) has_real_derivative (\<Sum>n. diffs gauss_coeff n * x ^ n))
          (at x)"
    by (rule termdiffs_strong_converges_everywhere) (rule gauss_coeff_summable)
  moreover have "(\<Sum>n. diffs gauss_coeff n * x ^ n) = exp (- (x\<^sup>2) / 2)"
    using diffs_gauss_sums by (rule sums_unique [symmetric])
  moreover have "gauss_primitive = (\<lambda>x. \<Sum>n. gauss_coeff n * x ^ n)"
    by (rule ext) (simp add: gauss_primitive_def)
  ultimately show ?thesis by simp
qed

lemma gauss_primitive_mono:
  assumes "x \<le> y"
  shows "gauss_primitive x \<le> gauss_primitive y"
proof (rule DERIV_nonneg_imp_nondecreasing [of x y gauss_primitive, OF assms])
  fix t :: real
  show "\<exists>d. (gauss_primitive has_real_derivative d) (at t) \<and> 0 \<le> d"
    using DERIV_gauss_primitive [of t] by (intro exI [of _ "exp (- (t\<^sup>2) / 2)"]) simp
qed

lemma gauss_primitive_lower:
  "gauss_primitive (- 1) - 2 * exp (- 1 / 2) \<le> gauss_primitive x"
proof (cases "x \<le> - 1")
  case False
  then have "gauss_primitive (- 1) \<le> gauss_primitive x"
    by (intro gauss_primitive_mono) simp
  moreover have "0 \<le> 2 * exp (- 1 / 2 :: real)" by simp
  ultimately show ?thesis by linarith
next
  case True
  let ?w = "\<lambda>t. gauss_primitive t - 2 * exp (t / 2)"
  have "?w (- 1) \<le> ?w x"
  proof (rule DERIV_nonpos_imp_nonincreasing [OF True])
    fix t :: real
    assume t: "x \<le> t" "t \<le> - 1"
    have d: "(?w has_real_derivative (exp (- (t\<^sup>2) / 2) - exp (t / 2))) (at t)"
      by (rule derivative_eq_intros DERIV_gauss_primitive refl | simp)+
    have "0 \<le> t * (t + 1)" using t by (intro mult_nonpos_nonpos) simp_all
    then have "- (t\<^sup>2) / 2 \<le> t / 2" by (simp add: power2_eq_square algebra_simps)
    then have "exp (- (t\<^sup>2) / 2) - exp (t / 2) \<le> 0" by simp
    with d show "\<exists>y. (?w has_real_derivative y) (at t) \<and> y \<le> 0" by blast
  qed
  moreover have "0 \<le> 2 * exp (x / 2)" by simp
  ultimately show ?thesis by linarith
qed

lemma gauss_primitive_bdd_below: "bdd_below (range gauss_primitive)"
  unfolding bdd_below_def using gauss_primitive_lower by blast

lemma gauss_primitive_tendsto_Inf:
  "(gauss_primitive \<longlongrightarrow> Inf (range gauss_primitive)) at_bot"
proof (rule order_tendstoI)
  fix a :: real
  assume "a < Inf (range gauss_primitive)"
  moreover have "Inf (range gauss_primitive) \<le> gauss_primitive x" for x
    by (rule cInf_lower [OF _ gauss_primitive_bdd_below]) simp
  ultimately have "a < gauss_primitive x" for x
    by (rule less_le_trans)
  then show "eventually (\<lambda>x. a < gauss_primitive x) at_bot" by simp
next
  fix a :: real
  assume "Inf (range gauss_primitive) < a"
  then obtain y where "y \<in> range gauss_primitive" "y < a"
    using cInf_less_iff [OF _ gauss_primitive_bdd_below, of a] by auto
  then obtain x0 where x0: "gauss_primitive x0 < a" by auto
  have "gauss_primitive x < a" if "x \<le> x0" for x
    using gauss_primitive_mono [OF that] x0 by simp
  then show "eventually (\<lambda>x. gauss_primitive x < a) at_bot"
    unfolding eventually_at_bot_linorder by blast
qed

lemma std_normal_norm: "std_normal norm_pdf norm_cdf"
  unfolding std_normal_def
proof (intro conjI allI)
  fix x :: real
  show "norm_pdf x = exp (- (x\<^sup>2) / 2) / sqrt (2 * pi)"
    by (simp add: norm_pdf_def)
  have "((\<lambda>x. gauss_primitive x - Inf (range gauss_primitive))
           has_real_derivative exp (- (x\<^sup>2) / 2)) (at x)"
    by (rule derivative_eq_intros DERIV_gauss_primitive refl | simp)+
  then have "((\<lambda>x. (gauss_primitive x - Inf (range gauss_primitive)) / sqrt (2 * pi))
           has_real_derivative exp (- (x\<^sup>2) / 2) / sqrt (2 * pi)) (at x)"
    by (rule DERIV_cdivide)
  moreover have "norm_cdf = (\<lambda>x. (gauss_primitive x - Inf (range gauss_primitive)) / sqrt (2 * pi))"
    by (rule ext) (simp add: norm_cdf_def)
  ultimately show "(norm_cdf has_real_derivative norm_pdf x) (at x)"
    by (simp add: norm_pdf_def)
next
  have "((\<lambda>x. (gauss_primitive x - Inf (range gauss_primitive)) / sqrt (2 * pi))
          \<longlongrightarrow> (Inf (range gauss_primitive) - Inf (range gauss_primitive)) / sqrt (2 * pi)) at_bot"
    by (intro tendsto_intros gauss_primitive_tendsto_Inf) simp
  moreover have "norm_cdf = (\<lambda>x. (gauss_primitive x - Inf (range gauss_primitive)) / sqrt (2 * pi))"
    by (rule ext) (simp add: norm_cdf_def)
  ultimately show "(norm_cdf \<longlongrightarrow> 0) at_bot" by simp
qed

lemma std_normal_pdf_pos: "std_normal pdf cdf \<Longrightarrow> 0 < pdf x"
  by (simp add: std_normal_def)

lemma std_normal_pdf_even: "std_normal pdf cdf \<Longrightarrow> pdf (- x) = pdf x"
  by (simp add: std_normal_def)

lemma std_normal_DERIV_cdf:
  "std_normal pdf cdf \<Longrightarrow> (cdf has_real_derivative pdf x) (at x)"
  unfolding std_normal_def by blast

lemma std_normal_DERIV_pdf:
  assumes "std_normal pdf cdf"
  shows "(pdf has_real_derivative - x * pdf x) (at x)"
proof -
  have "((\<lambda>x. exp (- (x\<^sup>2) / 2) / sqrt (2 * pi))
          has_real_derivative (exp (- (x\<^sup>2) / 2) * (- x)) / sqrt (2 * pi)) (at x)"
    by (rule DERIV_cdivide) (rule derivative_eq_intros refl | simp)+
  moreover have "pdf = (\<lambda>x. exp (- (x\<^sup>2) / 2) / sqrt (2 * pi))"
    using assms by (intro ext) (simp add: std_normal_def)
  ultimately show ?thesis by (simp add: mult.commute)
qed

lemma std_normal_cdf_pos:
  assumes "std_normal pdf cdf"
  shows "0 < cdf x"
proof (rule DERIV_pos_imp_increasing_at_bot [where f = cdf])
  show "(cdf \<longlongrightarrow> 0) at_bot" using assms by (simp add: std_normal_def)
  show "\<exists>y. (cdf has_real_derivative y) (at t) \<and> 0 < y" for t
    using std_normal_DERIV_cdf [OF assms, of t] std_normal_pdf_pos [OF assms, of t] by blast
qed

lemma std_normal_cdf_mono:
  assumes N: "std_normal pdf cdf" and xy: "x \<le> y"
  shows "cdf x \<le> cdf y"
proof (rule DERIV_nonneg_imp_nondecreasing [of x y cdf, OF xy])
  fix t :: real
  show "\<exists>d. (cdf has_real_derivative d) (at t) \<and> 0 \<le> d"
    using std_normal_DERIV_cdf [OF N, of t] std_normal_pdf_pos [OF N, of t]
    by (intro exI [of _ "pdf t"]) simp
qed

lemma std_normal_pdf_le:
  assumes "std_normal pdf cdf"
  shows "pdf x \<le> 1 / sqrt (2 * pi)"
proof -
  have "exp (- (x\<^sup>2) / 2) \<le> exp 0" by (subst exp_le_cancel_iff) simp
  then have "exp (- (x\<^sup>2) / 2) / sqrt (2 * pi) \<le> 1 / sqrt (2 * pi)"
    by (intro divide_right_mono) simp_all
  then show ?thesis using assms by (simp add: std_normal_def)
qed

text \<open>The bound of the lower tail by the density.\<close>

lemma std_normal_tail:
  assumes N: "std_normal pdf cdf" and x: "x < 0"
  shows "cdf x < pdf x / (- x)"
proof -
  let ?h = "\<lambda>t. pdf t / (- t) - cdf t"
  have "0 < ?h x"
  proof (rule DERIV_pos_imp_increasing_at_bot [where f = ?h])
    fix t :: real
    assume "t \<le> x"
    then have t: "t < 0" using x by simp
    have "(?h has_real_derivative
             ((- t * pdf t) * (- t) - pdf t * (- 1)) / ((- t) * (- t)) - pdf t) (at t)"
      using t
      by (intro DERIV_diff DERIV_divide std_normal_DERIV_pdf [OF N] std_normal_DERIV_cdf [OF N]
          DERIV_minus DERIV_ident) simp
    moreover have "((- t * pdf t) * (- t) - pdf t * (- 1)) / ((- t) * (- t)) - pdf t
                     = pdf t / (t * t)"
      using t by (simp add: field_simps)
    moreover have "0 < pdf t / (t * t)"
      using t std_normal_pdf_pos [OF N, of t] by (simp add: zero_less_mult_iff)
    ultimately show "\<exists>y. (?h has_real_derivative y) (at t) \<and> 0 < y" by auto
  next
    have inv: "((\<lambda>t::real. inverse (- t)) \<longlongrightarrow> 0) at_bot"
      by (rule tendsto_inverse_0_at_top) (rule filterlim_uminus_at_top_at_bot)
    have up: "((\<lambda>t::real. 1 / sqrt (2 * pi) * inverse (- t)) \<longlongrightarrow> 0) at_bot"
      using tendsto_mult_left [OF inv, of "1 / sqrt (2 * pi)"] by simp
    have "((\<lambda>t. pdf t / (- t)) \<longlongrightarrow> 0) at_bot"
    proof (rule tendsto_sandwich [OF _ _ tendsto_const up])
      show "eventually (\<lambda>t. 0 \<le> pdf t / (- t)) at_bot"
        unfolding eventually_at_bot_linorder
      proof (intro exI allI impI)
        fix t :: real assume "t \<le> - 1"
        then have "0 \<le> - t" by simp
        moreover have "0 \<le> pdf t"
          using std_normal_pdf_pos [OF N, of t] by simp
        ultimately show "0 \<le> pdf t / (- t)"
          by (rule divide_nonneg_nonneg [rotated])
      qed
      show "eventually (\<lambda>t. pdf t / (- t) \<le> 1 / sqrt (2 * pi) * inverse (- t)) at_bot"
        unfolding eventually_at_bot_linorder
      proof (intro exI allI impI)
        fix t :: real assume "t \<le> - 1"
        then have "0 \<le> inverse (- t)" by simp
        then have "pdf t * inverse (- t) \<le> 1 / sqrt (2 * pi) * inverse (- t)"
          by (intro mult_right_mono std_normal_pdf_le [OF N])
        then show "pdf t / (- t) \<le> 1 / sqrt (2 * pi) * inverse (- t)"
          by (simp add: divide_inverse)
      qed
    qed
    moreover have "(cdf \<longlongrightarrow> 0) at_bot" using N by (simp add: std_normal_def)
    ultimately have "((\<lambda>t. pdf t / (- t) - cdf t) \<longlongrightarrow> 0 - 0) at_bot"
      by (rule tendsto_diff)
    then show "(?h \<longlongrightarrow> 0) at_bot" by simp
  qed
  then show ?thesis by simp
qed

text \<open>\<open>pdf x + x * cdf x\<close> is positive.\<close>

lemma std_normal_pdf_plus:
  assumes N: "std_normal pdf cdf"
  shows "0 < pdf x + x * cdf x"
proof (cases "x < 0")
  case False
  then have "0 \<le> x * cdf x"
    using std_normal_cdf_pos [OF N, of x] by simp
  then show ?thesis using std_normal_pdf_pos [OF N, of x] by linarith
next
  case True
  then have "cdf x * (- x) < pdf x / (- x) * (- x)"
    using std_normal_tail [OF N True] by (intro mult_strict_right_mono) simp_all
  also have "\<dots> = pdf x" using True by simp
  finally show ?thesis by (simp add: algebra_simps)
qed

lemma DERIV_pdf_plus:
  assumes N: "std_normal pdf cdf"
  shows "((\<lambda>x. pdf x + x * cdf x) has_real_derivative cdf x) (at x)"
proof -
  have "((\<lambda>x. pdf x + x * cdf x) has_real_derivative (- x * pdf x + (1 * cdf x + pdf x * x)))
          (at x)"
    by (intro DERIV_add DERIV_mult std_normal_DERIV_pdf [OF N] std_normal_DERIV_cdf [OF N]
        DERIV_ident)
  then show ?thesis by (simp add: algebra_simps)
qed

text \<open>The ratio \<open>cdf / pdf\<close> does not decrease.\<close>

lemma std_normal_ratio_mono:
  assumes N: "std_normal pdf cdf" and xy: "x \<le> y"
  shows "cdf x / pdf x \<le> cdf y / pdf y"
proof (rule DERIV_nonneg_imp_nondecreasing [of x y "\<lambda>t. cdf t / pdf t", OF xy])
  fix t :: real
  have p: "pdf t \<noteq> 0" using std_normal_pdf_pos [OF N, of t] by simp
  have "((\<lambda>t. cdf t / pdf t) has_real_derivative
           (pdf t * pdf t - cdf t * (- t * pdf t)) / (pdf t * pdf t)) (at t)"
    by (intro DERIV_divide std_normal_DERIV_pdf [OF N] std_normal_DERIV_cdf [OF N] p)
  moreover have "(pdf t * pdf t - cdf t * (- t * pdf t)) / (pdf t * pdf t)
                   = (pdf t + t * cdf t) / pdf t"
    using p by (simp add: field_simps)
  moreover have "0 \<le> (pdf t + t * cdf t) / pdf t"
    using std_normal_pdf_plus [OF N, of t] std_normal_pdf_pos [OF N, of t] by simp
  ultimately show "\<exists>d. ((\<lambda>t. cdf t / pdf t) has_real_derivative d) (at t) \<and> 0 \<le> d"
    by auto
qed

section \<open>Facts about the swaption formula\<close>

lemma bachelier_call_pos:
  assumes N: "std_normal pdf cdf" and "0 < T" and "0 < s"
  shows "0 < bachelier_call pdf cdf m T s"
  unfolding bachelier_call_def
  using assms std_normal_pdf_plus [OF N, of "m / (s * sqrt T)"] by simp

lemma DERIV_bachelier_call:
  assumes N: "std_normal pdf cdf" and T: "0 < T" and s: "0 < s"
  shows "((\<lambda>s. bachelier_call pdf cdf m T s) has_real_derivative
            sqrt T * pdf (m / (s * sqrt T))) (at s)"
proof -
  define a where "a = sqrt T"
  have a: "0 < a" using T by (simp add: a_def)
  have sa: "s * a \<noteq> 0" using s a by simp
  let ?x = "\<lambda>s. m / (s * a)"
  have dx: "(?x has_real_derivative - m / (s * s * a)) (at s)"
    using s a by (auto intro!: derivative_eq_intros simp add: field_simps)
  have dg: "((\<lambda>s. pdf (?x s) + ?x s * cdf (?x s)) has_real_derivative
               cdf (?x s) * (- m / (s * s * a))) (at s)"
    by (rule DERIV_chain' [OF dx DERIV_pdf_plus [OF N]])
  have dl: "((\<lambda>s. s * a) has_real_derivative a) (at s)"
    by (auto intro!: derivative_eq_intros)
  have "((\<lambda>s. (s * a) * (pdf (?x s) + ?x s * cdf (?x s))) has_real_derivative
           a * (pdf (?x s) + ?x s * cdf (?x s))
           + cdf (?x s) * (- m / (s * s * a)) * (s * a)) (at s)"
    by (rule DERIV_mult [OF dl dg])
  moreover have "a * (pdf (?x s) + ?x s * cdf (?x s))
           + cdf (?x s) * (- m / (s * s * a)) * (s * a)
           = a * pdf (?x s)"
    using s a by (simp add: field_simps)
  ultimately show ?thesis
    by (simp add: bachelier_call_def [abs_def] a_def)
qed

lemma bachelier_call_increasing:
  assumes N: "std_normal pdf cdf" and T: "0 < T" and s: "0 < s1" "s1 < s2"
  shows "bachelier_call pdf cdf m T s1 < bachelier_call pdf cdf m T s2"
proof (rule DERIV_pos_imp_increasing [of s1 s2 "\<lambda>s. bachelier_call pdf cdf m T s", OF s(2)])
  fix s :: real
  assume "s1 \<le> s"
  then have "0 < s" using s(1) by simp
  then have "((\<lambda>s. bachelier_call pdf cdf m T s) has_real_derivative
               sqrt T * pdf (m / (s * sqrt T))) (at s)"
    by (rule DERIV_bachelier_call [OF N T])
  moreover have "0 < sqrt T * pdf (m / (s * sqrt T))"
    using T std_normal_pdf_pos [OF N] by simp
  ultimately show "\<exists>y. ((\<lambda>s. bachelier_call pdf cdf m T s) has_real_derivative y) (at s) \<and> 0 < y"
    by blast
qed

text \<open>The identity \<open>K * pdf d2 = F * pdf d1\<close> of the lognormal formula.\<close>

lemma black_pdf_identity:
  assumes N: "std_normal pdf cdf" and F: "0 < F" and K: "0 < K" and T: "0 < T" and s: "0 < s"
  shows "K * pdf (black_d1 F K T s - s * sqrt T) = F * pdf (black_d1 F K T s)"
proof -
  define a where "a = sqrt T"
  define d where "d = black_d1 F K T s"
  have a: "0 < a" "a * a = T" using T by (simp_all add: a_def)
  have "d * (s * a) = ln (F / K) + 0.5 * s\<^sup>2 * T"
    using s a by (simp add: d_def black_d1_def a_def)
  moreover have "- ((d - s * a)\<^sup>2) / 2 = - (d\<^sup>2) / 2 + d * (s * a) - s\<^sup>2 * (a * a) / 2"
    by (simp add: power2_eq_square field_simps)
  ultimately have "- ((d - s * a)\<^sup>2) / 2
                     = - (d\<^sup>2) / 2 + (ln (F / K) + 0.5 * s\<^sup>2 * T) - s\<^sup>2 * T / 2"
    by (simp only: a(2))
  then have "- ((d - s * a)\<^sup>2) / 2 = - (d\<^sup>2) / 2 + ln (F / K)"
    by simp
  then have "exp (- ((d - s * a)\<^sup>2) / 2) = exp (- (d\<^sup>2) / 2 + ln (F / K))"
    by (simp only:)
  also have "\<dots> = exp (- (d\<^sup>2) / 2) * exp (ln (F / K))"
    by (rule exp_add)
  also have "exp (ln (F / K)) = F / K"
    using F K by simp
  finally have "exp (- ((d - s * a)\<^sup>2) / 2) = exp (- (d\<^sup>2) / 2) * (F / K)" .
  then have "K * (exp (- ((d - s * a)\<^sup>2) / 2) / sqrt (2 * pi))
               = F * (exp (- (d\<^sup>2) / 2) / sqrt (2 * pi))"
    using K by (simp add: field_simps)
  then show ?thesis
    using N by (simp add: std_normal_def d_def a_def)
qed

lemma black_call_nonneg:
  assumes N: "std_normal pdf cdf" and F: "0 < F" and K: "0 < K" and T: "0 < T" and s: "0 < s"
  shows "0 \<le> black_call cdf F K T s"
proof -
  define d1 where "d1 = black_d1 F K T s"
  define d2 where "d2 = d1 - s * sqrt T"
  have p1: "0 < pdf d1" and p2: "0 < pdf d2" using std_normal_pdf_pos [OF N] by simp_all
  have id: "K * pdf d2 = F * pdf d1"
    using black_pdf_identity [OF N F K T s] by (simp add: d1_def d2_def)
  have "d2 \<le> d1" using T s by (simp add: d2_def)
  then have r: "cdf d2 / pdf d2 \<le> cdf d1 / pdf d1"
    by (rule std_normal_ratio_mono [OF N])
  have "K * cdf d2 = (K * pdf d2) * (cdf d2 / pdf d2)" using p2 by simp
  also have "\<dots> = (F * pdf d1) * (cdf d2 / pdf d2)" by (simp only: id)
  also have "\<dots> \<le> (F * pdf d1) * (cdf d1 / pdf d1)"
    using r F p1 by (intro mult_left_mono) simp_all
  also have "\<dots> = F * cdf d1" using p1 by simp
  finally show ?thesis by (simp add: black_call_def d1_def d2_def)
qed

lemma DERIV_black_call:
  assumes N: "std_normal pdf cdf" and F: "0 < F" and K: "0 < K" and T: "0 < T" and s: "0 < s"
  shows "((\<lambda>s. black_call cdf F K T s) has_real_derivative
            F * pdf (black_d1 F K T s) * sqrt T) (at s)"
proof -
  define a where "a = sqrt T"
  define L where "L = ln (F / K)"
  have a: "0 < a" using T by (simp add: a_def)
  have sa: "s * a \<noteq> 0" using s a by simp
  let ?d1 = "\<lambda>s. (L + 0.5 * s\<^sup>2 * T) / (s * a)"
  define D where "D = (T / 2 - L / (s * s)) / a"
  have d1: "(?d1 has_real_derivative D) (at s)"
    unfolding D_def using s a
    by (auto intro!: derivative_eq_intros simp add: field_simps power2_eq_square)
  have d2: "((\<lambda>s. ?d1 s - s * a) has_real_derivative D - 1 * a) (at s)"
    unfolding D_def using s a
    by (auto intro!: derivative_eq_intros simp add: field_simps power2_eq_square)
  have c1: "((\<lambda>s. cdf (?d1 s)) has_real_derivative pdf (?d1 s) * D) (at s)"
    by (rule DERIV_chain' [OF d1 std_normal_DERIV_cdf [OF N]])
  have c2: "((\<lambda>s. cdf (?d1 s - s * a)) has_real_derivative pdf (?d1 s - s * a) * (D - 1 * a)) (at s)"
    by (rule DERIV_chain' [OF d2 std_normal_DERIV_cdf [OF N]])
  have "((\<lambda>s. F * cdf (?d1 s) - K * cdf (?d1 s - s * a)) has_real_derivative
           F * (pdf (?d1 s) * D) - K * (pdf (?d1 s - s * a) * (D - 1 * a))) (at s)"
    by (intro DERIV_diff DERIV_cmult c1 c2)
  moreover have "K * pdf (?d1 s - s * a) = F * pdf (?d1 s)"
    using black_pdf_identity [OF N F K T s] by (simp add: black_d1_def a_def L_def)
  then have "F * (pdf (?d1 s) * D) - K * (pdf (?d1 s - s * a) * (D - 1 * a))
               = F * pdf (?d1 s) * a"
    by (simp add: algebra_simps)
  ultimately show ?thesis
    by (simp add: black_call_def [abs_def] black_d1_def [abs_def] a_def L_def)
qed

lemma black_call_increasing:
  assumes N: "std_normal pdf cdf" and F: "0 < F" and K: "0 < K" and T: "0 < T"
    and s: "0 < s1" "s1 < s2"
  shows "black_call cdf F K T s1 < black_call cdf F K T s2"
proof (rule DERIV_pos_imp_increasing [of s1 s2 "\<lambda>s. black_call cdf F K T s", OF s(2)])
  fix s :: real
  assume "s1 \<le> s"
  then have "0 < s" using s(1) by simp
  then have "((\<lambda>s. black_call cdf F K T s) has_real_derivative
               F * pdf (black_d1 F K T s) * sqrt T) (at s)"
    by (rule DERIV_black_call [OF N F K T])
  moreover have "0 < F * pdf (black_d1 F K T s) * sqrt T"
    using F T std_normal_pdf_pos [OF N] by simp
  ultimately show "\<exists>y. ((\<lambda>s. black_call cdf F K T s) has_real_derivative y) (at s) \<and> 0 < y"
    by blast
qed

lemma swaption_payer_normal:
  assumes "lower payer_receiver = ''payer''" and "lower model = ''normal''"
    and "0 < expiry" and "0 < sigma"
  shows "swaption_formula pdf cdf S K A expiry sigma payer_receiver model shift
           = Inr (Some (A * bachelier_call pdf cdf (S - K) expiry sigma))"
  using assms
  by (simp add: swaption_formula_def np_sqrt_def np_div_def bachelier_call_def)

lemma swaption_receiver_normal:
  assumes N: "std_normal pdf cdf"
    and "lower payer_receiver = ''receiver''" and "lower model = ''normal''"
    and "0 < expiry" and "0 < sigma"
  shows "swaption_formula pdf cdf S K A expiry sigma payer_receiver model shift
           = Inr (Some (A * bachelier_call pdf cdf (K - S) expiry sigma))"
proof -
  define d where "d = (S - K) / (sigma * sqrt expiry)"
  have m: "(K - S) / (sigma * sqrt expiry) = - d"
    by (simp add: d_def minus_divide_left)
  have "pdf (- d) = pdf d" by (rule std_normal_pdf_even [OF N])
  then have "A * sigma * sqrt expiry * (pdf d + - 1 * d * cdf (- 1 * d))
               = A * (sigma * sqrt expiry * (pdf (- d) + - d * cdf (- d)))"
    by simp
  then show ?thesis
    using assms(2-)
    by (simp add: swaption_formula_def np_sqrt_def np_div_def bachelier_call_def m
        d_def [symmetric])
qed

lemma swaption_lognormal_value:
  assumes "map_of [(''payer'', 1), (''receiver'', - 1)] (lower payer_receiver) = Some w"
    and "lower model = ''lognormal''"
    and "0 < expiry" and "0 < sigma" and "0 < S + shift" and "0 < K + shift"
  shows "swaption_formula pdf cdf S K A expiry sigma payer_receiver model shift
           = Inr (Some ((w * (S + shift) * cdf (w * black_d1 (S + shift) (K + shift) expiry sigma)
                           - w * (K + shift)
                               * cdf (w * (black_d1 (S + shift) (K + shift) expiry sigma
                                             - sigma * sqrt expiry)))
                        * A))"
proof -
  have "0 < (S + shift) / (K + shift)" using assms(5,6) by simp
  then show ?thesis
    using assms
    by (simp add: swaption_formula_def py_div_def np_log_def np_sqrt_def np_div_def
        black_d1_def Let_def not_le)
qed

lemma swaption_payer_lognormal:
  assumes "lower payer_receiver = ''payer''" and "lower model = ''lognormal''"
    and "0 < expiry" and "0 < sigma" and "0 < S + shift" and "0 < K + shift"
  shows "swaption_formula pdf cdf S K A expiry sigma payer_receiver model shift
           = Inr (Some (A * black_call cdf (S + shift) (K + shift) expiry sigma))"
proof -
  have "map_of [(''payer'', 1), (''receiver'', - 1 :: real)] (lower payer_receiver) = Some 1"
    using assms(1) by simp
  from swaption_lognormal_value [OF this assms(2-)] show ?thesis
    by (simp add: black_call_def)
qed

lemma black_d1_swap:
  assumes T: "0 < T" and s: "0 < s" and F: "0 < F" and K: "0 < K"
  shows "black_d1 K F T s = s * sqrt T - black_d1 F K T s"
proof -
  have "ln (K / F) = - ln (F / K)"
    using F K by (simp add: ln_div)
  moreover have "sqrt T * sqrt T = T" using T by simp
  ultimately show ?thesis
    using T s by (simp add: black_d1_def field_simps power2_eq_square)
qed

lemma swaption_receiver_lognormal:
  assumes "lower payer_receiver = ''receiver''" and "lower model = ''lognormal''"
    and T: "0 < expiry" and s: "0 < sigma" and F: "0 < S + shift" and K: "0 < K + shift"
  shows "swaption_formula pdf cdf S K A expiry sigma payer_receiver model shift
           = Inr (Some (A * black_call cdf (K + shift) (S + shift) expiry sigma))"
proof -
  define D where "D = black_d1 (S + shift) (K + shift) expiry sigma"
  have e: "black_d1 (K + shift) (S + shift) expiry sigma = sigma * sqrt expiry - D"
    unfolding D_def by (rule black_d1_swap [OF T s F K])
  have v: "black_call cdf (K + shift) (S + shift) expiry sigma
             = (K + shift) * cdf (sigma * sqrt expiry - D) - (S + shift) * cdf (- D)"
    by (simp add: black_call_def e)
  have "map_of [(''payer'', 1), (''receiver'', - 1 :: real)] (lower payer_receiver) = Some (- 1)"
    using assms(1) by simp
  from swaption_lognormal_value [OF this assms(2-)] show ?thesis
    by (simp add: v D_def [symmetric] algebra_simps)
qed

text \<open>
  Claim C2, as stated, for all positive \<open>S\<close>, \<open>K\<close>, \<open>A\<close>, expiry and volatility and
  the lognormal model with any shift, does not hold: the function checks neither the
  shift nor the shifted rates. With \<open>S = 0.03\<close>, \<open>K = 0.04\<close>, \<open>A = 1\<close>, expiry \<open>1\<close>,
  \<open>sigma = 0.2\<close>, the payer flag and \<open>shift = -0.05\<close> both shifted rates are negative,
  \<open>-0.02\<close> and \<open>-0.01\<close>, their ratio is \<open>2\<close> and its logarithm is defined, and the
  returned price \<open>-0.02 * cdf d1 + 0.01 * cdf (d1 - 0.2)\<close> is negative, because
  \<open>cdf (d1 - 0.2) \<le> cdf d1\<close> and \<open>0 < cdf d1\<close>.
\<close>

theorem swaption_negative_price:
  "swaption_formula norm_pdf norm_cdf (3 / 100) (4 / 100) 1 1 (2 / 10) ''payer'' ''lognormal''
       (- 5 / 100)
     = Inr (Some ((1 * (3 / 100 + - 5 / 100)
                     * norm_cdf (1 * ((ln ((3 / 100 + - 5 / 100) / (4 / 100 + - 5 / 100))
                                        + 0.5 * (2 / 10)\<^sup>2 * 1) / (2 / 10 * sqrt 1)))
                   - 1 * (4 / 100 + - 5 / 100)
                     * norm_cdf (1 * ((ln ((3 / 100 + - 5 / 100) / (4 / 100 + - 5 / 100))
                                        + 0.5 * (2 / 10)\<^sup>2 * 1) / (2 / 10 * sqrt 1)
                                      - 2 / 10 * sqrt 1))) * 1))
   \<and> (1 * (3 / 100 + - 5 / 100)
          * norm_cdf (1 * ((ln ((3 / 100 + - 5 / 100) / (4 / 100 + - 5 / 100))
                             + 0.5 * (2 / 10)\<^sup>2 * 1) / (2 / 10 * sqrt 1)))
        - 1 * (4 / 100 + - 5 / 100)
          * norm_cdf (1 * ((ln ((3 / 100 + - 5 / 100) / (4 / 100 + - 5 / 100))
                             + 0.5 * (2 / 10)\<^sup>2 * 1) / (2 / 10 * sqrt 1)
                           - 2 / 10 * sqrt 1))) * 1 < 0"
proof -
  define d1 :: real where
    "d1 = (ln ((3 / 100 + - 5 / 100) / (4 / 100 + - 5 / 100)) + 0.5 * (2 / 10)\<^sup>2 * 1)
            / (2 / 10 * sqrt 1)"
  have l: "lower ''payer'' = ''payer''" "lower ''lognormal'' = ''lognormal''"
    by (simp_all add: lower_def lower_char_def)
  have v: "swaption_formula norm_pdf norm_cdf (3 / 100) (4 / 100) 1 1 (2 / 10) ''payer''
              ''lognormal'' (- 5 / 100)
             = Inr (Some ((1 * (3 / 100 + - 5 / 100) * norm_cdf (1 * d1)
                           - 1 * (4 / 100 + - 5 / 100) * norm_cdf (1 * (d1 - 2 / 10 * sqrt 1)))
                          * 1))"
    unfolding d1_def
    by (simp add: swaption_formula_def l py_div_def np_log_def np_sqrt_def np_div_def Let_def)
  have "norm_cdf (d1 - 2 / 10) \<le> norm_cdf d1"
    by (rule std_normal_cdf_mono [OF std_normal_norm]) simp
  moreover have "0 < norm_cdf d1"
    by (rule std_normal_cdf_pos [OF std_normal_norm])
  ultimately have n: "(1 * (3 / 100 + - 5 / 100) * norm_cdf (1 * d1)
                           - 1 * (4 / 100 + - 5 / 100) * norm_cdf (1 * (d1 - 2 / 10 * sqrt 1)))
                          * 1 < 0"
    by simp
  from v n show ?thesis unfolding d1_def by (rule conjI)
qed

text \<open>
  Claim C2, amended. With the standard normal density and distribution function, a positive
  annuity and expiry, the flag \<open>payer\<close> or \<open>receiver\<close> (in any case of the letters), and
  either the normal model or the lognormal model with positive shifted rates \<open>S + shift\<close>
  and \<open>K + shift\<close> (which positive \<open>S\<close> and \<open>K\<close> give for every shift that is not
  negative): for any two volatilities \<open>0 < sigma1 < sigma2\<close> the function returns a price
  at both, the prices are non-negative, and the price at \<open>sigma2\<close> is strictly larger.
\<close>

theorem swaption_price_nonneg_increasing:
  assumes N: "std_normal pdf cdf"
    and A: "0 < A" and T: "0 < expiry"
    and flag: "lower payer_receiver = ''payer'' \<or> lower payer_receiver = ''receiver''"
    and model: "lower model = ''normal''
                \<or> (lower model = ''lognormal'' \<and> 0 < S + shift \<and> 0 < K + shift)"
    and s: "0 < sigma1" "sigma1 < sigma2"
  shows "\<exists>v1 v2.
           swaption_formula pdf cdf S K A expiry sigma1 payer_receiver model shift = Inr (Some v1)
           \<and> swaption_formula pdf cdf S K A expiry sigma2 payer_receiver model shift = Inr (Some v2)
           \<and> 0 \<le> v1 \<and> 0 \<le> v2 \<and> v1 < v2"
proof -
  have s2: "0 < sigma2" using s by simp
  have "\<exists>f. (\<forall>sigma>0. swaption_formula pdf cdf S K A expiry sigma payer_receiver model shift
                           = Inr (Some (A * f sigma)))
             \<and> (\<forall>sigma>0. 0 \<le> f sigma)
             \<and> (\<forall>x y. 0 < x \<and> x < y \<longrightarrow> f x < f y)"
  proof -
    consider (pn) "lower payer_receiver = ''payer''" "lower model = ''normal''"
      | (rn) "lower payer_receiver = ''receiver''" "lower model = ''normal''"
      | (pl) "lower payer_receiver = ''payer''" "lower model = ''lognormal''"
             "0 < S + shift" "0 < K + shift"
      | (rl) "lower payer_receiver = ''receiver''" "lower model = ''lognormal''"
             "0 < S + shift" "0 < K + shift"
      using flag model by blast
    then show ?thesis
    proof cases
      case pn
      show ?thesis
        by (rule exI [of _ "bachelier_call pdf cdf (S - K) expiry"])
           (auto simp add: swaption_payer_normal [OF pn T]
              intro: less_imp_le bachelier_call_pos [OF N T] bachelier_call_increasing [OF N T])
    next
      case rn
      show ?thesis
        by (rule exI [of _ "bachelier_call pdf cdf (K - S) expiry"])
           (auto simp add: swaption_receiver_normal [OF N rn T]
              intro: less_imp_le bachelier_call_pos [OF N T] bachelier_call_increasing [OF N T])
    next
      case pl
      show ?thesis
        by (rule exI [of _ "black_call cdf (S + shift) (K + shift) expiry"])
           (auto simp add: swaption_payer_lognormal [OF pl(1,2) T _ pl(3,4)]
              intro: black_call_nonneg [OF N pl(3,4) T] black_call_increasing [OF N pl(3,4) T])
    next
      case rl
      show ?thesis
        by (rule exI [of _ "black_call cdf (K + shift) (S + shift) expiry"])
           (auto simp add: swaption_receiver_lognormal [OF rl(1,2) T _ rl(3,4)]
              intro: black_call_nonneg [OF N rl(4,3) T] black_call_increasing [OF N rl(4,3) T])
    qed
  qed
  then obtain f where
    v: "\<And>sigma. 0 < sigma \<Longrightarrow>
          swaption_formula pdf cdf S K A expiry sigma payer_receiver model shift
            = Inr (Some (A * f sigma))"
    and n: "\<And>sigma. 0 < sigma \<Longrightarrow> 0 \<le> f sigma"
    and i: "\<And>x y. 0 < x \<Longrightarrow> x < y \<Longrightarrow> f x < f y"
    by blast
  have "0 \<le> A * f sigma1" "0 \<le> A * f sigma2"
    using A n [OF s(1)] n [OF s2] by simp_all
  moreover have "A * f sigma1 < A * f sigma2"
    using A i [OF s] by simp
  ultimately show ?thesis
    using v [OF s(1)] v [OF s2] by blast
qed

lemma lower_examples:
  "lower ''Payer'' = ''payer''" "lower ''receiver'' = ''receiver''"
  "lower ''lognormal'' = ''lognormal''" "lower ''Normal'' = ''normal''"
  by (simp_all add: lower_def lower_char_def)

theorem swaption_price_nonneg_increasing_witness:
  "std_normal norm_pdf norm_cdf
   \<and> lower ''Payer'' = ''payer'' \<and> lower ''lognormal'' = ''lognormal''
   \<and> (\<exists>v1 v2.
         swaption_formula norm_pdf norm_cdf (3 / 100) (4 / 100) 4 5 (1 / 10) ''Payer''
            ''lognormal'' (2 / 100) = Inr (Some v1)
         \<and> swaption_formula norm_pdf norm_cdf (3 / 100) (4 / 100) 4 5 (2 / 10) ''Payer''
            ''lognormal'' (2 / 100) = Inr (Some v2)
         \<and> 0 \<le> v1 \<and> 0 \<le> v2 \<and> v1 < v2)
   \<and> lower ''receiver'' = ''receiver'' \<and> lower ''Normal'' = ''normal''
   \<and> (\<exists>v1 v2.
         swaption_formula norm_pdf norm_cdf (3 / 100) (4 / 100) 4 5 (1 / 100) ''receiver''
            ''Normal'' 0 = Inr (Some v1)
         \<and> swaption_formula norm_pdf norm_cdf (3 / 100) (4 / 100) 4 5 (2 / 100) ''receiver''
            ''Normal'' 0 = Inr (Some v2)
         \<and> 0 \<le> v1 \<and> 0 \<le> v2 \<and> v1 < v2)"
proof -
  have a: "\<exists>v1 v2.
         swaption_formula norm_pdf norm_cdf (3 / 100) (4 / 100) 4 5 (1 / 10) ''Payer''
            ''lognormal'' (2 / 100) = Inr (Some v1)
         \<and> swaption_formula norm_pdf norm_cdf (3 / 100) (4 / 100) 4 5 (2 / 10) ''Payer''
            ''lognormal'' (2 / 100) = Inr (Some v2)
         \<and> 0 \<le> v1 \<and> 0 \<le> v2 \<and> v1 < v2"
    by (rule swaption_price_nonneg_increasing [OF std_normal_norm])
       (simp_all add: lower_examples)
  have b: "\<exists>v1 v2.
         swaption_formula norm_pdf norm_cdf (3 / 100) (4 / 100) 4 5 (1 / 100) ''receiver''
            ''Normal'' 0 = Inr (Some v1)
         \<and> swaption_formula norm_pdf norm_cdf (3 / 100) (4 / 100) 4 5 (2 / 100) ''receiver''
            ''Normal'' 0 = Inr (Some v2)
         \<and> 0 \<le> v1 \<and> 0 \<le> v2 \<and> v1 < v2"
    by (rule swaption_price_nonneg_increasing [OF std_normal_norm])
       (simp_all add: lower_examples)
  from a b show ?thesis
    using std_normal_norm lower_examples by blast
qed

end
